theory Spec2Isabelle
  imports Complex_Main "HOL-Library.Sublist"
begin

section \<open>Project risk analyzer (src/app.py): data model and operations\<close>

text \<open>
  The development embeds the decision logic of \<^verbatim>\<open>ProjectRiskAnalyzer\<close>.
  Conventions of the embedding:
  \<^item> Python \<^verbatim>\<open>str\<close> is \<open>string\<close>; \<^verbatim>\<open>str.lower\<close> is modelled on the ASCII letters
    (every other character is left as it is).
  \<^item> Counters of the contributor ledger are Python ints that start at 0 and are only ever
    increased; they are \<open>nat\<close>. Day counts and timestamps can be negative; they are \<open>int\<close>.
  \<^item> Python floats that hold quotients of counters (percentages, the risk score, the trend
    ratio) are exact rationals (\<open>rat\<close>).
  \<^item> A timestamp string is represented by the naive datetime it parses to, in microseconds;
    \<open>None\<close> stands for a missing or unparseable timestamp.
  \<^item> A dictionary key that may be absent is an \<open>option\<close> field; a raised exception is the
    left summand of a result.
\<close>

subsection \<open>Strings\<close>

definition lower_char :: "char \<Rightarrow> char" where
  "lower_char c =
     (if 65 \<le> (of_char c :: nat) \<and> (of_char c :: nat) \<le> 90
      then char_of ((of_char c :: nat) + 32) else c)"

definition lower :: "string \<Rightarrow> string" where
  "lower s = map lower_char s"

text \<open>\<^verbatim>\<open>s.split(sep)\<close> for a one-character separator: the pieces between the separators,
  never an empty list.\<close>

fun split :: "char \<Rightarrow> string \<Rightarrow> string list" where
  "split sep [] = [Nil]"
| "split sep (c # cs) =
     (if c = sep then [] # split sep cs
      else (c # hd (split sep cs)) # tl (split sep cs))"

subsection \<open>The analyzer's configuration\<close>

record analyzer =
  analysis_window_days :: int
  custom_domains :: "string list"

definition company_domains :: "string list" where
  "company_domains =
    [''microsoft.com'', ''google.com'', ''facebook.com'', ''meta.com'', ''apple.com'',
     ''amazon.com'', ''netflix.com'', ''uber.com'', ''airbnb.com'', ''twitter.com'',
     ''linkedin.com'', ''github.com'', ''gitlab.com'', ''atlassian.com'', ''salesforce.com'',
     ''oracle.com'', ''ibm.com'', ''intel.com'', ''nvidia.com'', ''amd.com'', ''cisco.com'',
     ''vmware.com'', ''redhat.com'', ''canonical.com'', ''mozilla.org'', ''spotify.com'',
     ''dropbox.com'', ''slack.com'', ''zoom.us'', ''docker.com'', ''hashicorp.com'']"

definition personal_domains :: "string list" where
  "personal_domains =
    [''gmail.com'', ''yahoo.com'', ''hotmail.com'', ''outlook.com'', ''live.com'',
     ''icloud.com'', ''protonmail.com'', ''mail.com'', ''yandex.com'', ''qq.com'',
     ''163.com'', ''126.com'', ''sina.com'', ''sohu.com'', ''naver.com'', ''daum.net'',
     ''web.de'', ''gmx.de'', ''t-online.de'', ''free.fr'', ''laposte.net'']"

definition academic_tlds :: "string list" where
  "academic_tlds = [''.edu'', ''.ac.uk'', ''.edu.au'', ''.ac.jp'', ''.edu.cn'']"

subsection \<open>\<^verbatim>\<open>_classify_email_domain\<close>\<close>

definition classify_email_domain :: "analyzer \<Rightarrow> string \<Rightarrow> string" where
  "classify_email_domain self addr =
     (if addr = [] \<or> CHR ''@'' \<notin> set addr then ''no email available''
      else
        let domain = lower (last (split (CHR ''@'') addr)) in
        if domain \<in> set (custom_domains self) then ''custom''
        else if domain \<in> set company_domains then ''company''
        else if list_ex (\<lambda>tld. suffix tld domain) academic_tlds then ''academic''
        else if domain \<in> set personal_domains then ''personal''
        else ''personal'')"

text \<open>The domain portion in the words of the specification: the lowercased substring after
  the last \<open>@\<close>.\<close>

definition after_last_at :: "string \<Rightarrow> string" where
  "after_last_at addr = rev (takeWhile (\<lambda>c. c \<noteq> CHR ''@'') (rev addr))"

subsection \<open>\<^verbatim>\<open>_is_bot_account\<close>\<close>

definition bot_indicators :: "string list" where
  "bot_indicators =
    [''bot'', ''automated'', ''auto'', ''ci'', ''cd'', ''deploy'', ''build'',
     ''github-actions'', ''dependabot'', ''renovate'', ''greenkeeper'',
     ''codecov'', ''codeclimate'', ''travis'', ''appveyor'', ''jenkins'',
     ''drone'', ''circleci'', ''gitlab-ci'', ''azure-devops'', ''teamcity'',
     ''service'', ''automation'', ''pipeline'', ''workflow'', ''action'']"

definition bot_email_patterns :: "string list" where
  "bot_email_patterns =
    [''noreply'', ''no-reply'', ''automation'', ''bot'', ''ci'', ''cd'',
     ''github-actions'', ''dependabot'', ''renovate'']"

definition is_bot_account :: "string \<Rightarrow> string \<Rightarrow> string \<Rightarrow> bool" where
  "is_bot_account lgn nm addr =
     (if lgn = [] then False
      else
        let login_lower = lower lgn;
            name_lower = (if nm \<noteq> [] then lower nm else [])
        in
        if list_ex (\<lambda>indicator. sublist indicator login_lower) bot_indicators then True
        else if list_ex (\<lambda>indicator. sublist indicator name_lower) bot_indicators then True
        else if addr \<noteq> [] \<and>
                list_ex (\<lambda>pattern. sublist pattern (lower addr)) bot_email_patterns then True
        else if suffix ''[bot]'' login_lower \<or> suffix ''[bot]'' name_lower then True
        else False)"

subsection \<open>Quarter assignment: \<^verbatim>\<open>get_quarter\<close>\<close>

datatype py_error = ZeroDivisionError

definition day :: int where
  "day = 86400000000"

text \<open>\<^verbatim>\<open>(now - date_obj).days\<close>: the whole days of the difference, rounded down.
  \<^verbatim>\<open>days_ago // quarter_length\<close> raises when the quarter length is 0.\<close>

definition get_quarter :: "analyzer \<Rightarrow> int \<Rightarrow> int option \<Rightarrow> py_error + int option" where
  "get_quarter self now date_obj =
     (case date_obj of
        None \<Rightarrow> Inr None
      | Some t \<Rightarrow>
          let quarter_length = analysis_window_days self div 4;
              days_ago = (now - t) div day
          in
          if days_ago < 0 \<or> days_ago > analysis_window_days self then Inr None
          else if quarter_length = 0 then Inl ZeroDivisionError
          else Inr (Some (3 - min 3 (days_ago div quarter_length))))"

subsection \<open>Trend detection\<close>

text \<open>The trend label of lines 957 to 980, from the quarterly vector. In the last branch
  \<open>older_half\<close> is positive (the case 0 was taken by one of the first three tests), so the
  ratio is the quotient.\<close>

definition activity_trend_of :: "nat list \<Rightarrow> string" where
  "activity_trend_of quarters =
     (let recent_half = quarters ! 2 + quarters ! 3;
          older_half = quarters ! 0 + quarters ! 1
      in
      if older_half = 0 \<and> recent_half > 0 then ''increasing''
      else if recent_half = 0 \<and> older_half > 0 then ''decreasing''
      else if older_half = 0 \<and> recent_half = 0 then ''stable''
      else
        let ratio = Fract (int recent_half) (int older_half) in
        if ratio > 3 / 2 then ''increasing''
        else if ratio < 67 / 100 then ''decreasing''
        else ''stable'')"

subsection \<open>Input records\<close>

text \<open>A commit object as the aggregation reads it: \<^verbatim>\<open>commit["author"]["login"]\<close>
  (absent when no account is linked), and name, email and date of
  \<^verbatim>\<open>commit["commit"]["author"]\<close>.\<close>

record commit_rec =
  author_login :: "string option"
  commit_author_name :: "string option"
  commit_author_email :: "string option"
  commit_author_date :: "int option"

record review_rec =
  review_user_login :: "string option"

text \<open>An issue or pull-request object: \<open>pull_request\<close> is the truthiness of
  \<^verbatim>\<open>issue.get("pull_request")\<close>, \<open>reviews\<close> and \<open>participants\<close> are empty when the key
  is absent, \<open>comments\<close> is 0 when the key is absent.\<close>

record issue_rec =
  user_login :: "string option"
  created_at :: "int option"
  pull_request :: bool
  reviews :: "review_rec list"
  comments :: nat
  participants :: "string list"

subsection \<open>The contributor ledger\<close>

record contributor =
  name :: string
  email :: string
  email_type :: string
  commits :: nat
  issues_created :: nat
  prs_created :: nat
  reviews_given :: nat
  comments_made :: nat
  total_activity :: nat
  quarterly_activity :: "nat list"
  activity_trend :: "string option"

text \<open>\<^verbatim>\<open>active_contributors\<close> is a Python dict: an association list in insertion order
  with one pair for each key.\<close>

type_synonym ledger = "(string \<times> contributor) list"

definition new_contributor :: "string \<Rightarrow> string \<Rightarrow> string \<Rightarrow> contributor" where
  "new_contributor nm addr et =
     \<lparr>name = nm, email = addr, email_type = et, commits = 0, issues_created = 0,
      prs_created = 0, reviews_given = 0, comments_made = 0, total_activity = 0,
      quarterly_activity = [0, 0, 0, 0], activity_trend = None\<rparr>"

definition logins :: "ledger \<Rightarrow> string set" where
  "logins L = fst ` set L"

text \<open>\<^verbatim>\<open>if k not in d: d[k] = v\<close>\<close>

definition ensure :: "string \<Rightarrow> contributor \<Rightarrow> ledger \<Rightarrow> ledger" where
  "ensure k v L = (if k \<in> logins L then L else L @ [(k, v)])"

text \<open>\<^verbatim>\<open>d[k][field] += n\<close> for a key that is present.\<close>

definition modify :: "string \<Rightarrow> (contributor \<Rightarrow> contributor) \<Rightarrow> ledger \<Rightarrow> ledger" where
  "modify k f L = map (\<lambda>(k', v). if k' = k then (k', f v) else (k', v)) L"

definition bump_quarter :: "int \<Rightarrow> contributor \<Rightarrow> contributor" where
  "bump_quarter q c =
     c\<lparr>quarterly_activity :=
         (quarterly_activity c)[nat q := quarterly_activity c ! nat q + 1]\<rparr>"

definition bump_quarter_opt :: "int option \<Rightarrow> string \<Rightarrow> ledger \<Rightarrow> ledger" where
  "bump_quarter_opt quarter k L =
     (case quarter of None \<Rightarrow> L | Some q \<Rightarrow> modify k (bump_quarter q) L)"

subsection \<open>Window filters\<close>

definition filter_recent_commits :: "analyzer \<Rightarrow> int \<Rightarrow> commit_rec list \<Rightarrow> commit_rec list" where
  "filter_recent_commits self now cs =
     filter (\<lambda>c. case commit_author_date c of
                   None \<Rightarrow> False
                 | Some t \<Rightarrow> t \<ge> now - analysis_window_days self * day) cs"

definition filter_recent_issues :: "analyzer \<Rightarrow> int \<Rightarrow> issue_rec list \<Rightarrow> issue_rec list" where
  "filter_recent_issues self now xs =
     filter (\<lambda>i. case created_at i of
                   None \<Rightarrow> False
                 | Some t \<Rightarrow> t \<ge> now - analysis_window_days self * day) xs"

subsection \<open>Aggregation: commit authors\<close>

definition resolve_commit_login :: "commit_rec \<Rightarrow> string" where
  "resolve_commit_login c =
     (let author_login0 = (case author_login c of None \<Rightarrow> ''unknown'' | Some l \<Rightarrow> l);
          author_name = (case commit_author_name c of None \<Rightarrow> ''Unknown'' | Some n \<Rightarrow> n)
      in if author_login0 = ''unknown'' \<and> author_name \<noteq> ''Unknown''
         then author_name else author_login0)"

definition commit_is_bot :: "commit_rec \<Rightarrow> bool" where
  "commit_is_bot c =
     is_bot_account (resolve_commit_login c)
       (case commit_author_name c of None \<Rightarrow> ''Unknown'' | Some n \<Rightarrow> n)
       (case commit_author_email c of None \<Rightarrow> [] | Some e \<Rightarrow> e)"

definition commit_step :: "analyzer \<Rightarrow> int \<Rightarrow> ledger \<Rightarrow> commit_rec \<Rightarrow> py_error + ledger" where
  "commit_step self now L c =
     (let author_name = (case commit_author_name c of None \<Rightarrow> ''Unknown'' | Some n \<Rightarrow> n);
          author_email = (case commit_author_email c of None \<Rightarrow> [] | Some e \<Rightarrow> e);
          author = resolve_commit_login c
      in
      if is_bot_account author author_name author_email then Inr L
      else
        let L1 = ensure author
                   (new_contributor author_name author_email
                      (classify_email_domain self author_email)) L;
            L2 = modify author (\<lambda>e. e\<lparr>commits := commits e + 1\<rparr>) L1
        in
        case get_quarter self now (commit_author_date c) of
          Inl err \<Rightarrow> Inl err
        | Inr quarter \<Rightarrow> Inr (bump_quarter_opt quarter author L2))"

subsection \<open>Aggregation: issue and pull-request authors, reviews, comments\<close>

definition review_login :: "review_rec \<Rightarrow> string" where
  "review_login r = (case review_user_login r of None \<Rightarrow> ''unknown'' | Some l \<Rightarrow> l)"

definition review_step :: "string \<Rightarrow> int option \<Rightarrow> ledger \<Rightarrow> review_rec \<Rightarrow> ledger" where
  "review_step author quarter L r =
     (let reviewer = review_login r in
      if reviewer = ''unknown'' \<or> is_bot_account reviewer [] [] then L
      else if reviewer \<noteq> author then
        let L1 = ensure reviewer (new_contributor reviewer [] ''N/A'') L;
            L2 = modify reviewer (\<lambda>e. e\<lparr>reviews_given := reviews_given e + 1\<rparr>) L1
        in bump_quarter_opt quarter reviewer L2
      else L)"

definition human_participants :: "issue_rec \<Rightarrow> string list" where
  "human_participants i =
     filter (\<lambda>p. p \<noteq> [] \<and> \<not> is_bot_account p [] []) (participants i)"

definition comments_per_participant :: "issue_rec \<Rightarrow> nat" where
  "comments_per_participant i = max 1 (comments i div length (human_participants i))"

definition distribute_comments :: "ledger \<Rightarrow> issue_rec \<Rightarrow> ledger" where
  "distribute_comments L i =
     (if comments i > 0 \<and> participants i \<noteq> [] then
        if human_participants i \<noteq> [] then
          foldl (\<lambda>L' participant.
                   if participant \<in> logins L'
                   then modify participant
                          (\<lambda>e. e\<lparr>comments_made :=
                                   comments_made e + comments_per_participant i\<rparr>) L'
                   else L')
                L (human_participants i)
        else L
      else L)"

definition issue_login :: "issue_rec \<Rightarrow> string" where
  "issue_login i = (case user_login i of None \<Rightarrow> ''unknown'' | Some l \<Rightarrow> l)"

definition issue_step :: "analyzer \<Rightarrow> int \<Rightarrow> ledger \<Rightarrow> issue_rec \<Rightarrow> py_error + ledger" where
  "issue_step self now L i =
     (let author = issue_login i in
      if author = ''unknown'' then Inr L
      else if is_bot_account author [] [] then Inr L
      else
        let L1 = ensure author (new_contributor author [] ''N/A'') L in
        case get_quarter self now (created_at i) of
          Inl err \<Rightarrow> Inl err
        | Inr quarter \<Rightarrow>
            let L2 = (if pull_request i
                      then modify author (\<lambda>e. e\<lparr>prs_created := prs_created e + 1\<rparr>) L1
                      else modify author (\<lambda>e. e\<lparr>issues_created := issues_created e + 1\<rparr>) L1);
                L3 = bump_quarter_opt quarter author L2;
                L4 = foldl (review_step author quarter) L3 (reviews i)
            in Inr (distribute_comments L4 i))"

text \<open>A \<^verbatim>\<open>for\<close> loop whose body may raise: the first exception ends the loop.\<close>

fun for_each :: "('s \<Rightarrow> 'a \<Rightarrow> py_error + 's) \<Rightarrow> 's \<Rightarrow> 'a list \<Rightarrow> py_error + 's" where
  "for_each body s [] = Inr s"
| "for_each body s (x # xs) =
     (case body s x of Inl err \<Rightarrow> Inl err | Inr s' \<Rightarrow> for_each body s' xs)"

subsection \<open>Totals and trends\<close>

definition finalize :: "contributor \<Rightarrow> contributor" where
  "finalize c =
     (let c1 = c\<lparr>total_activity :=
                   commits c + issues_created c + prs_created c + reviews_given c
                   + comments_made c\<rparr>
      in if total_activity c1 \<ge> 10
         then c1\<lparr>activity_trend := Some (activity_trend_of (quarterly_activity c1))\<rparr>
         else c1\<lparr>activity_trend := Some ''insufficient_data''\<rparr>)"

text \<open>The aggregation pass, lines 783 to 980: the ledger after the three loops.\<close>

definition aggregate ::
  "analyzer \<Rightarrow> int \<Rightarrow> commit_rec list \<Rightarrow> issue_rec list \<Rightarrow> py_error + ledger" where
  "aggregate self now recent_commits recent_issues =
     (case for_each (commit_step self now) [] recent_commits of
        Inl err \<Rightarrow> Inl err
      | Inr L \<Rightarrow>
          (case for_each (issue_step self now) L recent_issues of
             Inl err \<Rightarrow> Inl err
           | Inr L' \<Rightarrow> Inr (map (\<lambda>(k, v). (k, finalize v)) L')))"

subsection \<open>Concentration risk: the result of \<^verbatim>\<open>_analyze_contributor_concentration\<close>\<close>

text \<open>Of the repository statistics only the field that the recommendations read is kept;
  the statistics themselves are computed from timestamps by
  \<^verbatim>\<open>_calculate_repository_statistics\<close>, which the analysis receives here as a function.
  The sentiment summary that is attached to each entry does not take part in any figure
  below and is left out.\<close>

record repository_statistics =
  avg_pr_close_time_days :: "rat option"

record contributor_info =
  login :: string
  details :: contributor
  activity_percentage :: rat

record top_contributor_info =
  top_login :: string
  top_name :: string
  top_total_activity :: nat
  percentage :: rat

text \<open>The dictionary that the analysis returns. The keys that only one of the two
  \<^verbatim>\<open>return\<close> statements writes are optional.\<close>

record risk_factor_dict =
  contributor_concentration_risk :: rat
  total_active_contributors :: nat
  recent_commits_analyzed :: nat
  recent_issues_analyzed :: nat
  total_activity_events :: "nat option"
  repository_stats :: "repository_statistics option"
  top_contributor :: "top_contributor_info option"
  active_contributors :: "contributor_info list"
  top_contributor_percentage :: "rat option"
  activity_distribution :: "(string \<times> rat) list"

text \<open>\<^verbatim>\<open>(n / total * 100) if total > 0 else 0\<close>\<close>

definition percent :: "nat \<Rightarrow> nat \<Rightarrow> rat" where
  "percent n total_events = (if total_events > 0 then of_nat n / of_nat total_events * 100 else 0)"

text \<open>\<^verbatim>\<open>sorted(..., key=total_activity, reverse=True)\<close>: stable, largest total first.\<close>

definition sort_by_activity :: "ledger \<Rightarrow> ledger" where
  "sort_by_activity L = sort_key (\<lambda>x. - int (total_activity (snd x))) L"

definition sum_activity :: "ledger \<Rightarrow> nat" where
  "sum_activity L = sum_list (map (\<lambda>x. total_activity (snd x)) L)"

definition concentration_report ::
  "ledger \<Rightarrow> nat \<Rightarrow> nat \<Rightarrow> repository_statistics \<Rightarrow> risk_factor_dict" where
  "concentration_report L n_commits n_issues repo_stats =
     (let sorted_contributors = sort_by_activity L in
      if sorted_contributors = [] then
        \<lparr>contributor_concentration_risk = 1,
         total_active_contributors = 0,
         recent_commits_analyzed = n_commits,
         recent_issues_analyzed = n_issues,
         total_activity_events = None,
         repository_stats = None,
         top_contributor = None,
         active_contributors = [],
         top_contributor_percentage = Some 100,
         activity_distribution = []\<rparr>
      else
        let total_events = sum_activity sorted_contributors;
            top = hd sorted_contributors;
            top_contributor_activity = total_activity (snd top);
            top_pct = percent top_contributor_activity total_events;
            concentration_risk = min 1 (max 0 ((top_pct - 30) / 40))
        in
        \<lparr>contributor_concentration_risk = concentration_risk,
         total_active_contributors = length L,
         recent_commits_analyzed = n_commits,
         recent_issues_analyzed = n_issues,
         total_activity_events = Some total_events,
         repository_stats = Some repo_stats,
         top_contributor =
           Some \<lparr>top_login = fst top, top_name = name (snd top),
                 top_total_activity = top_contributor_activity, percentage = top_pct\<rparr>,
         active_contributors =
           map (\<lambda>(k, v). \<lparr>login = k, details = v,
                           activity_percentage = percent (total_activity v) total_events\<rparr>)
               sorted_contributors,
         top_contributor_percentage = None,
         activity_distribution =
           [(''top_1_contributor_percentage'', top_pct),
            (''top_3_contributors_percentage'',
               percent (sum_activity (take 3 sorted_contributors)) total_events),
            (''top_5_contributors_percentage'',
               percent (sum_activity (take 5 sorted_contributors)) total_events)]\<rparr>)"

text \<open>The whole analysis. The three clock readings are those of the two window filters and
  of the aggregation.\<close>

definition analyze_contributor_concentration ::
  "analyzer \<Rightarrow> (issue_rec list \<Rightarrow> commit_rec list \<Rightarrow> repository_statistics) \<Rightarrow>
   int \<Rightarrow> int \<Rightarrow> int \<Rightarrow> commit_rec list \<Rightarrow> issue_rec list \<Rightarrow> py_error + risk_factor_dict" where
  "analyze_contributor_concentration self calculate_repository_statistics
       now_commits now_issues now cs xs =
     (let recent_commits = filter_recent_commits self now_commits cs;
          recent_issues = filter_recent_issues self now_issues xs
      in case aggregate self now recent_commits recent_issues of
           Inl err \<Rightarrow> Inl err
         | Inr L \<Rightarrow>
             Inr (concentration_report L (length recent_commits) (length recent_issues)
                    (calculate_repository_statistics recent_issues recent_commits)))"

subsection \<open>\<^verbatim>\<open>_generate_recommendations\<close>\<close>

definition abandonment_risk_message :: string where
  "abandonment_risk_message =
     '' ABANDONMENT RISK: Primary contributor (non-company email) shows declining activity - high risk of project abandonment''"

definition capacity_risk_message :: string where
  "capacity_risk_message =
     '' CAPACITY RISK: Project heavily dependent on single non-company contributor - risk of burnout or 'Nebraska problem' (single point of failure)''"

text \<open>\<open>format_1f\<close> stands for the float formatting \<^verbatim>\<open>{x:.1f}\<close>.\<close>

definition generate_recommendations :: "(rat \<Rightarrow> string) \<Rightarrow> risk_factor_dict \<Rightarrow> string list" where
  "generate_recommendations format_1f rf =
     (let total_contributors = total_active_contributors rf;
          concentration_risk = contributor_concentration_risk rf;
          contributors = active_contributors rf;
          r1 =
            (if concentration_risk > 1 / 2 \<and> total_contributors \<le> 3 then
               if contributors \<noteq> [] then
                 let top_contributor_data = hd contributors;
                     et = email_type (details top_contributor_data);
                     trend = (case activity_trend (details top_contributor_data) of
                                None \<Rightarrow> [] | Some t \<Rightarrow> t)
                 in
                 if et \<in> set [''personal'', ''N/A'', ''unknown''] then
                   if trend = ''decreasing'' then [abandonment_risk_message]
                   else if trend \<in> set [''stable'', ''increasing''] then [capacity_risk_message]
                   else []
                 else []
               else []
             else []);
          r2 =
            (case (case repository_stats rf of
                     None \<Rightarrow> None | Some st \<Rightarrow> avg_pr_close_time_days st) of
               None \<Rightarrow> []
             | Some avg_pr_close_time \<Rightarrow>
                 if avg_pr_close_time > 5
                 then ['' SECURITY RISK: Average PR close time ('' @ format_1f avg_pr_close_time
                        @ '' days) exceeds 5 days - security patches may not be applied quickly enough'']
                 else []);
          r3 =
            (if concentration_risk > 7 / 10
             then [''Consider actively recruiting additional maintainers to reduce dependency on single contributor'']
             else if concentration_risk > 4 / 10
             then [''Monitor contributor diversity - one person is doing a significant portion of the work'']
             else []);
          r4 =
            (if total_contributors < 3
             then [''Critical: Very few active contributors - prioritize community building and contributor recruitment'']
             else if total_contributors < 5
             then [''Low contributor count - consider ways to encourage more community participation'']
             else []);
          top_3_pct =
            (case map_of (activity_distribution rf) ''top_3_contributors_percentage'' of
               None \<Rightarrow> 0 | Some v \<Rightarrow> v);
          r5 =
            (if top_3_pct > 80
             then [''Top 3 contributors handle most activity - implement knowledge sharing and mentoring programs'']
             else []);
          recommendations = r1 @ r2 @ r3 @ r4 @ r5
      in
      if recommendations = []
      then [''Project shows good contributor diversity and activity distribution'']
      else recommendations)"

subsection \<open>\<^verbatim>\<open>analyze_repositories\<close>\<close>

text \<open>A report carries either the factor dictionary of a finished analysis or the
  dictionary \<^verbatim>\<open>{"error": str(e)}\<close>.\<close>

datatype 'f factors = Factors 'f | Error_entry string

record 'f risk_analysis =
  repository :: string
  overall_risk_score :: rat
  risk_factors :: "'f factors"
  recommendations :: "string list"
  analysis_date :: string

text \<open>\<^verbatim>\<open>analyze_single_repository\<close> talks to the network: it is a function of the state
  \<open>'w\<close> of the outside world that gives either the text of the \<^verbatim>\<open>Exception\<close> it
  raised or its report, and the next state. \<open>now_iso\<close> reads the clock.\<close>

fun analyze_repositories ::
  "('w \<Rightarrow> string \<Rightarrow> (string + 'f risk_analysis) \<times> 'w) \<Rightarrow> ('w \<Rightarrow> string) \<Rightarrow>
   'w \<Rightarrow> string list \<Rightarrow> 'f risk_analysis list \<times> 'w" where
  "analyze_repositories analyze_single_repository now_iso w [] = ([], w)"
| "analyze_repositories analyze_single_repository now_iso w (repo_url # rest) =
     (let (outcome, w') = analyze_single_repository w repo_url;
          analysis =
            (case outcome of
               Inr a \<Rightarrow> a
             | Inl e \<Rightarrow>
                 \<lparr>repository = repo_url,
                  overall_risk_score = 1,
                  risk_factors = Error_entry e,
                  recommendations = [''Unable to analyze repository''],
                  analysis_date = now_iso w'\<rparr>);
          (analyses, w'') = analyze_repositories analyze_single_repository now_iso w' rest
      in (analysis # analyses, w''))"

subsection \<open>Observations on the ledger\<close>

text \<open>The entries that the aggregation creates carry four quarterly slots.\<close>

definition well_formed :: "ledger \<Rightarrow> bool" where
  "well_formed L = (\<forall>e \<in> snd ` set L. length (quarterly_activity e) = 4)"

definition counters :: "contributor \<Rightarrow> nat" where
  "counters e = commits e + issues_created e + prs_created e + reviews_given e + comments_made e"

text \<open>What the ledger holds for a login; a login without an entry counts as 0.\<close>

definition reviews_of :: "ledger \<Rightarrow> string \<Rightarrow> nat" where
  "reviews_of L k = (case map_of L k of None \<Rightarrow> 0 | Some e \<Rightarrow> reviews_given e)"

definition comments_of :: "ledger \<Rightarrow> string \<Rightarrow> nat" where
  "comments_of L k = (case map_of L k of None \<Rightarrow> 0 | Some e \<Rightarrow> comments_made e)"

definition quarter_count :: "ledger \<Rightarrow> string \<Rightarrow> nat \<Rightarrow> nat" where
  "quarter_count L k q = (case map_of L k of None \<Rightarrow> 0 | Some e \<Rightarrow> quarterly_activity e ! q)"

text \<open>Every entry has at least one counted event.\<close>

definition active :: "ledger \<Rightarrow> bool" where
  "active L = (\<forall>e \<in> snd ` set L. 1 \<le> counters e)"

text \<open>The logins that each loop adds to the ledger.\<close>

definition known_human :: "string \<Rightarrow> bool" where
  "known_human k = (k \<noteq> ''unknown'' \<and> \<not> is_bot_account k [] [])"

definition commit_logins :: "commit_rec list \<Rightarrow> string set" where
  "commit_logins cs = set (map resolve_commit_login (filter (\<lambda>c. \<not> commit_is_bot c) cs))"

definition issue_logins :: "issue_rec list \<Rightarrow> string set" where
  "issue_logins xs = set (filter known_human (map issue_login xs))"

definition counted_reviewers :: "issue_rec \<Rightarrow> string set" where
  "counted_reviewers i =
     set (filter (\<lambda>k. known_human k \<and> k \<noteq> issue_login i) (map review_login (reviews i)))"

definition reviewer_logins :: "issue_rec list \<Rightarrow> string set" where
  "reviewer_logins xs =
     (\<Union>i \<in> set (filter (\<lambda>i. known_human (issue_login i)) xs). counted_reviewers i)"

text \<open>The set of logins in the words of the specification: every non-bot login other than
  \<open>unknown\<close> that is the author of a commit, the author of an issue or pull request, or a
  reviewer of a pull request.\<close>

definition specified_logins :: "commit_rec list \<Rightarrow> issue_rec list \<Rightarrow> string set" where
  "specified_logins cs xs =
     set (filter (\<lambda>k. k \<noteq> ''unknown'')
            (map resolve_commit_login (filter (\<lambda>c. \<not> commit_is_bot c) cs)))
     \<union> set (filter known_human (map issue_login xs))
     \<union> set (filter known_human (concat (map (\<lambda>i. map review_login (reviews i)) xs)))"

section \<open>Properties\<close>

subsection \<open>Email classification\<close>

lemma split_not_Nil: "split sep s \<noteq> []"
  by (induction s) auto

lemma last_split: "last (split sep s) = rev (takeWhile (\<lambda>c. c \<noteq> sep) (rev s))"
proof (induction s)
  case Nil
  show ?case by simp
next
  case (Cons c cs)
  show ?case
  proof (cases "sep \<in> set cs")
    case True
    then have tw: "takeWhile (\<lambda>c. c \<noteq> sep) (rev cs @ [c]) = takeWhile (\<lambda>c. c \<noteq> sep) (rev cs)"
      by (simp add: takeWhile_append1)
    have "last (split sep (c # cs)) = last (split sep cs)"
    proof (cases "c = sep")
      case True
      then show ?thesis by (simp add: split_not_Nil)
    next
      case False
      have "tl (split sep cs) \<noteq> []"
        using \<open>sep \<in> set cs\<close> by (induction cs) (auto simp: split_not_Nil)
      then show ?thesis using False by (simp add: last_tl split_not_Nil)
    qed
    then show ?thesis using Cons.IH tw by simp
  next
    case False
    then have tw: "takeWhile (\<lambda>c. c \<noteq> sep) (rev cs @ [c]) = rev cs @ takeWhile (\<lambda>c. c \<noteq> sep) [c]"
      by (intro takeWhile_append2) auto
    have sp: "split sep cs = [cs]"
      using False by (induction cs) auto
    show ?thesis
      using sp tw by simp
  qed
qed

text \<open>
  Claim C9. \<^verbatim>\<open>_classify_email_domain\<close> is a total function of the email string. A string
  without \<open>@\<close> (the empty string among them) gives the sentinel \<open>no email available\<close>.
  Otherwise the lowercased substring after the last \<open>@\<close> decides, in this order: a member of
  the custom domains gives \<open>custom\<close>, a member of the company domains gives \<open>company\<close>, a
  domain that ends with an academic suffix gives \<open>academic\<close>, a member of the personal
  domains gives \<open>personal\<close>, and every other domain gives \<open>personal\<close>.
\<close>

theorem classify_email_domain_spec:
  "(CHR ''@'' \<notin> set addr \<longrightarrow> classify_email_domain self addr = ''no email available'') \<and>
   (CHR ''@'' \<in> set addr \<longrightarrow>
      classify_email_domain self addr =
        (let d = lower (after_last_at addr) in
         if d \<in> set (custom_domains self) then ''custom''
         else if d \<in> set company_domains then ''company''
         else if \<exists>tld \<in> set academic_tlds. suffix tld d then ''academic''
         else if d \<in> set personal_domains then ''personal''
         else ''personal''))"
proof -
  have dom: "lower (last (split (CHR ''@'') addr)) = lower (after_last_at addr)"
    by (simp add: last_split after_last_at_def)
  show ?thesis
    unfolding classify_email_domain_def dom Let_def list_ex_iff
    by auto
qed

theorem classify_email_domain_spec_witness:
  "classify_email_domain \<lparr>analysis_window_days = 365, custom_domains = [''acme.io'']\<rparr> ''joe''
     = ''no email available''
   \<and> classify_email_domain \<lparr>analysis_window_days = 365, custom_domains = [''acme.io'']\<rparr>
         ''a@b@CS.MIT.edu'' = ''academic''"
  using classify_email_domain_spec
          [of "''joe''" "\<lparr>analysis_window_days = 365, custom_domains = [''acme.io'']\<rparr>"]
        classify_email_domain_spec
          [of "''a@b@CS.MIT.edu''" "\<lparr>analysis_window_days = 365, custom_domains = [''acme.io'']\<rparr>"]
  by (simp add: after_last_at_def lower_def lower_char_def company_domains_def
        academic_tlds_def personal_domains_def Let_def suffix_to_prefix)

subsection \<open>Quarter assignment\<close>

text \<open>With a window of at least 4 days the quarter length is positive and the assignment
  always returns: an index from 0 to 3 that does not grow with the age in days, 3 for an age
  of 0 days, and no bucket for a negative age or an age beyond the window.\<close>

lemma get_quarter_total:
  "4 \<le> analysis_window_days self \<Longrightarrow> \<exists>q. get_quarter self now d = Inr q"
  by (cases d) (auto simp: get_quarter_def Let_def)

lemma get_quarter_range:
  assumes "get_quarter self now d = Inr (Some q)"
  shows "0 \<le> q \<and> q \<le> 3"
proof -
  obtain t where d: "d = Some t" using assms by (cases d) (auto simp: get_quarter_def)
  define days_ago where "days_ago = (now - t) div day"
  define ql where "ql = analysis_window_days self div 4"
  have *: "0 \<le> days_ago" "days_ago \<le> analysis_window_days self" "ql \<noteq> 0"
    and q: "q = 3 - min 3 (days_ago div ql)"
    using assms unfolding d days_ago_def ql_def
    by (auto simp: get_quarter_def Let_def split: if_splits)
  have "0 < ql" using * unfolding ql_def by linarith
  then have "0 \<le> days_ago div ql" using *(1) by (simp add: pos_imp_zdiv_nonneg_iff)
  then show ?thesis unfolding q by auto
qed

lemma get_quarter_mono:
  assumes "get_quarter self now (Some t1) = Inr (Some q1)"
    and "get_quarter self now (Some t2) = Inr (Some q2)"
    and "(now - t1) div day \<le> (now - t2) div day"
  shows "q2 \<le> q1"
proof -
  define ql where "ql = analysis_window_days self div 4"
  have *: "0 \<le> (now - t1) div day" "(now - t1) div day \<le> analysis_window_days self" "ql \<noteq> 0"
    and q1: "q1 = 3 - min 3 ((now - t1) div day div ql)"
    using assms(1) unfolding ql_def
    by (auto simp: get_quarter_def Let_def split: if_splits)
  have q2: "q2 = 3 - min 3 ((now - t2) div day div ql)"
    using assms(2) unfolding ql_def
    by (auto simp: get_quarter_def Let_def split: if_splits)
  have "0 < ql" using * unfolding ql_def by linarith
  with assms(3) have "(now - t1) div day div ql \<le> (now - t2) div day div ql"
    by (rule zdiv_mono1)
  then show ?thesis unfolding q1 q2 by auto
qed

lemma get_quarter_newest:
  assumes "4 \<le> analysis_window_days self" "(now - t) div day = 0"
  shows "get_quarter self now (Some t) = Inr (Some 3)"
  using assms by (auto simp: get_quarter_def Let_def)

lemma get_quarter_outside:
  assumes "(now - t) div day < 0 \<or> analysis_window_days self < (now - t) div day"
  shows "get_quarter self now (Some t) = Inr None"
  using assms by (auto simp: get_quarter_def Let_def)

text \<open>
  Claim C6. The claim asks that \<^verbatim>\<open>get_quarter\<close> never raises for any window from 1 to 365
  days and that a timestamp with 0 elapsed days gets index 3. For a window of 1 day the
  quarter length \<open>1 // 4\<close> is 0, and a timestamp of age 0 makes the function divide by it:
  the call raises \<^verbatim>\<open>ZeroDivisionError\<close>. The same happens for windows of 2 and 3 days.
\<close>

theorem get_quarter_small_window_raises:
  "get_quarter \<lparr>analysis_window_days = 1, custom_domains = []\<rparr> 0 (Some 0)
     = Inl ZeroDivisionError"
  by (simp add: get_quarter_def day_def)

subsection \<open>The empty ledger\<close>

text \<open>
  Claim C4, as the code has it. When the ledger is empty after the aggregation pass, the
  analysis returns risk 1, a contributor count of 0, an empty contributor list and an empty
  activity distribution; the top-contributor percentage it returns is 100.
\<close>

theorem empty_ledger_analysis:
  assumes "aggregate self now (filter_recent_commits self now_commits cs)
             (filter_recent_issues self now_issues xs) = Inr []"
  shows "analyze_contributor_concentration self calc now_commits now_issues now cs xs =
     Inr \<lparr>contributor_concentration_risk = 1, total_active_contributors = 0,
          recent_commits_analyzed = length (filter_recent_commits self now_commits cs),
          recent_issues_analyzed = length (filter_recent_issues self now_issues xs),
          total_activity_events = None, repository_stats = None, top_contributor = None,
          active_contributors = [], top_contributor_percentage = Some 100,
          activity_distribution = []\<rparr>"
  using assms
  by (simp add: analyze_contributor_concentration_def concentration_report_def
        sort_by_activity_def Let_def)

theorem empty_ledger_analysis_witness:
  "analyze_contributor_concentration \<lparr>analysis_window_days = 365, custom_domains = []\<rparr>
       (\<lambda>_ _. \<lparr>avg_pr_close_time_days = None\<rparr>) 0 0 0 [] [] =
     Inr \<lparr>contributor_concentration_risk = 1, total_active_contributors = 0,
          recent_commits_analyzed = 0, recent_issues_analyzed = 0,
          total_activity_events = None, repository_stats = None, top_contributor = None,
          active_contributors = [], top_contributor_percentage = Some 100,
          activity_distribution = []\<rparr>"
  using empty_ledger_analysis
          [of "\<lparr>analysis_window_days = 365, custom_domains = []\<rparr>" 0 0 "[]" 0 "[]"
              "\<lambda>_ _. \<lparr>avg_pr_close_time_days = None\<rparr>"]
  by (simp add: aggregate_def filter_recent_commits_def filter_recent_issues_def)

text \<open>The claim as stated asks for a top-contributor percentage that is zero or absent.\<close>

theorem empty_ledger_percentage_counterexample:
  "map_sum id top_contributor_percentage
     (analyze_contributor_concentration \<lparr>analysis_window_days = 365, custom_domains = []\<rparr>
        (\<lambda>_ _. \<lparr>avg_pr_close_time_days = None\<rparr>) 0 0 0 [] []) = Inr (Some 100)"
  by (simp add: analyze_contributor_concentration_def concentration_report_def
        sort_by_activity_def aggregate_def filter_recent_commits_def filter_recent_issues_def)

subsection \<open>Trend labels\<close>

text \<open>
  Claim C5. For a ledger entry with quarterly vector \<open>[q0, q1, q2, q3]\<close>, the pass over the
  ledger sets the trend label from \<open>recent = q2 + q3\<close> and \<open>older = q0 + q1\<close> when the sum of
  the five counters is at least 10: increasing if older is 0 and recent is positive,
  decreasing if recent is 0 and older is positive, stable if both are 0, and otherwise
  increasing if recent / older exceeds 1.5, decreasing if it is below 0.67, else stable.
  An entry whose counters sum to less than 10 is labelled \<open>insufficient_data\<close>.
\<close>

theorem trend_label:
  assumes "quarterly_activity c = [q0, q1, q2, q3]"
  shows "(commits c + issues_created c + prs_created c + reviews_given c + comments_made c < 10 \<longrightarrow>
            activity_trend (finalize c) = Some ''insufficient_data'') \<and>
         (commits c + issues_created c + prs_created c + reviews_given c + comments_made c \<ge> 10 \<longrightarrow>
            activity_trend (finalize c) =
              Some (let recent = q2 + q3; older = q0 + q1 in
                    if older = 0 \<and> recent > 0 then ''increasing''
                    else if recent = 0 \<and> older > 0 then ''decreasing''
                    else if older = 0 \<and> recent = 0 then ''stable''
                    else if (of_nat recent :: rat) / of_nat older > 3 / 2 then ''increasing''
                    else if (of_nat recent :: rat) / of_nat older < 67 / 100 then ''decreasing''
                    else ''stable''))"
  using assms
  by (simp add: finalize_def activity_trend_of_def Let_def Fract_of_int_quotient)

theorem trend_label_witness:
  "activity_trend (finalize ((new_contributor ''a'' [] ''N/A'')
      \<lparr>commits := 3, quarterly_activity := [0, 1, 1, 1]\<rparr>)) = Some ''insufficient_data''
   \<and> activity_trend (finalize ((new_contributor ''a'' [] ''N/A'')
      \<lparr>commits := 12, quarterly_activity := [6, 3, 2, 1]\<rparr>)) = Some ''decreasing''"
  using trend_label [of "(new_contributor ''a'' [] ''N/A'')
                           \<lparr>commits := 3, quarterly_activity := [0, 1, 1, 1]\<rparr>" 0 1 1 1]
        trend_label [of "(new_contributor ''a'' [] ''N/A'')
                           \<lparr>commits := 12, quarterly_activity := [6, 3, 2, 1]\<rparr>" 6 3 2 1]
  by (simp add: new_contributor_def)

subsection \<open>Batch analysis\<close>

lemma analyze_repositories_Cons_fst:
  "fst (analyze_repositories single now_iso w (u # us)) =
     (case fst (single w u) of
        Inr a \<Rightarrow> a
      | Inl e \<Rightarrow> \<lparr>repository = u, overall_risk_score = 1, risk_factors = Error_entry e,
                  recommendations = [''Unable to analyze repository''],
                  analysis_date = now_iso (snd (single w u))\<rparr>)
     # fst (analyze_repositories single now_iso (snd (single w u)) us)"
  by (simp add: Let_def split: prod.splits sum.splits)

lemma analyze_repositories_Cons_snd:
  "snd (analyze_repositories single now_iso w (u # us)) =
     snd (analyze_repositories single now_iso (snd (single w u)) us)"
  by (simp add: Let_def split: prod.splits)

lemma analyze_repositories_length:
  "length (fst (analyze_repositories single now_iso w urls)) = length urls"
proof (induction urls arbitrary: w)
  case Nil
  show ?case by simp
next
  case (Cons u us)
  show ?case
    unfolding analyze_repositories_Cons_fst using Cons.IH by simp
qed

lemma analyze_repositories_nth:
  assumes "i < length urls"
  shows "fst (analyze_repositories single now_iso w urls) ! i =
     (let w_i = snd (analyze_repositories single now_iso w (take i urls)) in
      case fst (single w_i (urls ! i)) of
        Inr a \<Rightarrow> a
      | Inl e \<Rightarrow> \<lparr>repository = urls ! i, overall_risk_score = 1, risk_factors = Error_entry e,
                  recommendations = [''Unable to analyze repository''],
                  analysis_date = now_iso (snd (single w_i (urls ! i)))\<rparr>)"
  using assms
proof (induction urls arbitrary: w i)
  case Nil
  then show ?case by simp
next
  case (Cons u us)
  show ?case
  proof (cases i)
    case 0
    show ?thesis unfolding 0 analyze_repositories_Cons_fst by (simp split: sum.splits)
  next
    case (Suc j)
    then have "j < length us" using Cons.prems by simp
    from Cons.IH [OF this, of "snd (single w u)"]
    show ?thesis
      unfolding Suc analyze_repositories_Cons_fst
      by (simp add: analyze_repositories_Cons_snd Let_def
            del: analyze_repositories.simps split: sum.splits)
  qed
qed

text \<open>
  Claim C10. \<^verbatim>\<open>analyze_repositories\<close> returns one report for each identifier submitted.
  The report at position \<open>i\<close> is the report of \<^verbatim>\<open>analyze_single_repository\<close> for that
  identifier when the call returned. When the call raised, the report names the identifier,
  has overall risk score 1, carries the error text as its risk factors and has the one
  recommendation \<open>Unable to analyze repository\<close>; the loop goes on with the next identifier.
\<close>

theorem batch_isolates_failures:
  "length (fst (analyze_repositories single now_iso w urls)) = length urls \<and>
   (\<forall>i < length urls.
      let w_i = snd (analyze_repositories single now_iso w (take i urls));
          report = fst (analyze_repositories single now_iso w urls) ! i
      in (\<forall>a. fst (single w_i (urls ! i)) = Inr a \<longrightarrow> report = a) \<and>
         (\<forall>e. fst (single w_i (urls ! i)) = Inl e \<longrightarrow>
            repository report = urls ! i \<and> overall_risk_score report = 1 \<and>
            risk_factors report = Error_entry e \<and>
            recommendations report = [''Unable to analyze repository'']))"
proof (intro conjI allI impI)
  show "length (fst (analyze_repositories single now_iso w urls)) = length urls"
    by (rule analyze_repositories_length)
next
  fix i assume "i < length urls"
  from analyze_repositories_nth [OF this, of single now_iso w]
  show "let w_i = snd (analyze_repositories single now_iso w (take i urls));
          report = fst (analyze_repositories single now_iso w urls) ! i
      in (\<forall>a. fst (single w_i (urls ! i)) = Inr a \<longrightarrow> report = a) \<and>
         (\<forall>e. fst (single w_i (urls ! i)) = Inl e \<longrightarrow>
            repository report = urls ! i \<and> overall_risk_score report = 1 \<and>
            risk_factors report = Error_entry e \<and>
            recommendations report = [''Unable to analyze repository''])"
    by (simp add: Let_def)
qed

theorem batch_isolates_failures_witness:
  "fst (analyze_repositories
      (\<lambda>w u. if u = ''bad/repo'' then (Inl ''404'', Suc w)
              else (Inr \<lparr>repository = u, overall_risk_score = 0, risk_factors = Factors (),
                         recommendations = [], analysis_date = ''t''\<rparr>, Suc w))
      (\<lambda>w. ''now'') (0::nat) [''a/b'', ''bad/repo'', ''c/d''])
   = [\<lparr>repository = ''a/b'', overall_risk_score = 0, risk_factors = Factors (),
        recommendations = [], analysis_date = ''t''\<rparr>,
      \<lparr>repository = ''bad/repo'', overall_risk_score = 1, risk_factors = Error_entry ''404'',
        recommendations = [''Unable to analyze repository''], analysis_date = ''now''\<rparr>,
      \<lparr>repository = ''c/d'', overall_risk_score = 0, risk_factors = Factors (),
        recommendations = [], analysis_date = ''t''\<rparr>]"
  using batch_isolates_failures [of
      "(\<lambda>w u. if u = ''bad/repo'' then (Inl ''404'', Suc w)
              else (Inr \<lparr>repository = u, overall_risk_score = 0, risk_factors = Factors (),
                         recommendations = [], analysis_date = ''t''\<rparr>, Suc w))"
      "(\<lambda>w. ''now'')" "0::nat" "[''a/b'', ''bad/repo'', ''c/d'']"]
  by (simp add: Let_def)

subsection \<open>Recommendations for the top contributor\<close>

lemma category_messages_differ:
  "abandonment_risk_message \<noteq> capacity_risk_message"
  by (simp add: abandonment_risk_message_def capacity_risk_message_def)

text \<open>When exactly each of the two messages of the first rule is among the recommendations.\<close>

lemma generate_recommendations_category:
  "abandonment_risk_message \<in> set (generate_recommendations format_1f rf) \<longleftrightarrow>
     contributor_concentration_risk rf > 1 / 2 \<and> total_active_contributors rf \<le> 3 \<and>
     active_contributors rf \<noteq> [] \<and>
     email_type (details (hd (active_contributors rf))) \<in> {''personal'', ''N/A'', ''unknown''} \<and>
     activity_trend (details (hd (active_contributors rf))) = Some ''decreasing''"
  "capacity_risk_message \<in> set (generate_recommendations format_1f rf) \<longleftrightarrow>
     contributor_concentration_risk rf > 1 / 2 \<and> total_active_contributors rf \<le> 3 \<and>
     active_contributors rf \<noteq> [] \<and>
     email_type (details (hd (active_contributors rf))) \<in> {''personal'', ''N/A'', ''unknown''} \<and>
     activity_trend (details (hd (active_contributors rf))) \<in> {Some ''stable'', Some ''increasing''}"
  unfolding generate_recommendations_def Let_def abandonment_risk_message_def capacity_risk_message_def
  by (auto split: option.splits if_splits)

text \<open>
  Claim C3, as the code has it. For a risk-factor bundle with concentration risk above 0.5,
  at most 3 contributors and a non-empty contributor list: when the email category of the
  top contributor is \<open>personal\<close>, \<open>N/A\<close> or \<open>unknown\<close>, the recommendations contain the
  abandonment-risk message (and not the capacity-risk message) if the trend is decreasing, and
  the capacity-risk message (and not the abandonment-risk message) if the trend is stable or
  increasing; when the category is \<open>company\<close>, \<open>custom\<close> or \<open>academic\<close>, they contain
  neither message.
\<close>

theorem top_contributor_risk_messages:
  assumes "contributor_concentration_risk rf > 1 / 2"
    and "total_active_contributors rf \<le> 3"
    and "active_contributors rf \<noteq> []"
  shows
    "(email_type (details (hd (active_contributors rf))) \<in> {''personal'', ''N/A'', ''unknown''} \<and>
      activity_trend (details (hd (active_contributors rf))) = Some ''decreasing'' \<longrightarrow>
        abandonment_risk_message \<in> set (generate_recommendations format_1f rf) \<and>
        capacity_risk_message \<notin> set (generate_recommendations format_1f rf)) \<and>
     (email_type (details (hd (active_contributors rf))) \<in> {''personal'', ''N/A'', ''unknown''} \<and>
      activity_trend (details (hd (active_contributors rf)))
        \<in> {Some ''stable'', Some ''increasing''} \<longrightarrow>
        capacity_risk_message \<in> set (generate_recommendations format_1f rf) \<and>
        abandonment_risk_message \<notin> set (generate_recommendations format_1f rf)) \<and>
     (email_type (details (hd (active_contributors rf))) \<in> {''company'', ''custom'', ''academic''} \<longrightarrow>
        abandonment_risk_message \<notin> set (generate_recommendations format_1f rf) \<and>
        capacity_risk_message \<notin> set (generate_recommendations format_1f rf))"
  using assms unfolding generate_recommendations_category by auto

theorem top_contributor_risk_messages_witness:
  "abandonment_risk_message \<in> set (generate_recommendations (\<lambda>x. [])
      \<lparr>contributor_concentration_risk = 1, total_active_contributors = 1,
       recent_commits_analyzed = 12, recent_issues_analyzed = 0,
       total_activity_events = Some 12, repository_stats = None, top_contributor = None,
       active_contributors =
         [\<lparr>login = ''ann'',
           details = (new_contributor ''Ann'' ''ann@gmail.com'' ''personal'')
                       \<lparr>commits := 12, total_activity := 12,
                        quarterly_activity := [8, 4, 0, 0],
                        activity_trend := Some ''decreasing''\<rparr>,
           activity_percentage = 100\<rparr>],
       top_contributor_percentage = None, activity_distribution = []\<rparr>)"
  using top_contributor_risk_messages [of
      "\<lparr>contributor_concentration_risk = 1, total_active_contributors = 1,
       recent_commits_analyzed = 12, recent_issues_analyzed = 0,
       total_activity_events = Some 12, repository_stats = None, top_contributor = None,
       active_contributors =
         [\<lparr>login = ''ann'',
           details = (new_contributor ''Ann'' ''ann@gmail.com'' ''personal'')
                       \<lparr>commits := 12, total_activity := 12,
                        quarterly_activity := [8, 4, 0, 0],
                        activity_trend := Some ''decreasing''\<rparr>,
           activity_percentage = 100\<rparr>],
       top_contributor_percentage = None, activity_distribution = []\<rparr>" "\<lambda>x. []"]
  by (simp add: new_contributor_def)

text \<open>The claim as stated covers every category other than \<open>company\<close>. An academic top
  contributor with a decreasing trend gets no abandonment-risk message.\<close>

theorem top_contributor_risk_messages_counterexample:
  "abandonment_risk_message \<notin> set (generate_recommendations (\<lambda>x. [])
      \<lparr>contributor_concentration_risk = 1, total_active_contributors = 1,
       recent_commits_analyzed = 12, recent_issues_analyzed = 0,
       total_activity_events = Some 12, repository_stats = None, top_contributor = None,
       active_contributors =
         [\<lparr>login = ''ann'',
           details = (new_contributor ''Ann'' ''ann@mit.edu'' ''academic'')
                       \<lparr>commits := 12, total_activity := 12,
                        quarterly_activity := [8, 4, 0, 0],
                        activity_trend := Some ''decreasing''\<rparr>,
           activity_percentage = 100\<rparr>],
       top_contributor_percentage = None, activity_distribution = []\<rparr>)"
  unfolding generate_recommendations_category
  by (simp add: new_contributor_def)

subsection \<open>Ledger operations\<close>

lemma logins_modify [simp]: "logins (modify k f L) = logins L"
  by (force simp: logins_def modify_def split: if_splits)

lemma logins_ensure [simp]: "logins (ensure k v L) = insert k (logins L)"
  by (auto simp: logins_def ensure_def)

lemma logins_bump_quarter_opt [simp]: "logins (bump_quarter_opt quarter k L) = logins L"
  by (cases quarter) (simp_all add: bump_quarter_opt_def)

lemma map_of_modify:
  "map_of (modify k f L) x = (if x = k then map_option f (map_of L x) else map_of L x)"
  by (induction L) (auto simp: modify_def)

lemma logins_map_of: "k \<in> logins L \<longleftrightarrow> map_of L k \<noteq> None"
  by (simp add: logins_def map_of_eq_None_iff)

lemma map_of_ensure:
  "map_of (ensure k v L) x = (if x = k \<and> k \<notin> logins L then Some v else map_of L x)"
  by (auto simp: ensure_def logins_map_of map_add_def split: option.splits)

lemma map_of_bump_quarter_opt:
  "map_of (bump_quarter_opt quarter k L) x =
     (if x = k then map_option (case quarter of None \<Rightarrow> id | Some q \<Rightarrow> bump_quarter q) (map_of L x)
      else map_of L x)"
  by (cases quarter) (auto simp: bump_quarter_opt_def map_of_modify option.map_id0)

lemma well_formed_modify:
  assumes "well_formed L" "\<And>e. length (quarterly_activity (f e)) = length (quarterly_activity e)"
  shows "well_formed (modify k f L)"
  using assms by (auto simp: well_formed_def modify_def split: if_splits)

lemma well_formed_ensure:
  assumes "well_formed L" "length (quarterly_activity v) = 4"
  shows "well_formed (ensure k v L)"
  using assms by (auto simp: well_formed_def ensure_def)

lemma well_formed_bump_quarter_opt:
  "well_formed L \<Longrightarrow> well_formed (bump_quarter_opt quarter k L)"
  by (cases quarter) (auto simp: bump_quarter_opt_def bump_quarter_def intro: well_formed_modify)


subsection \<open>Which logins the aggregation adds\<close>

lemma logins_commit_step:
  assumes "commit_step self now L c = Inr L'"
  shows "logins L' = logins L \<union> (if commit_is_bot c then {} else {resolve_commit_login c})"
  using assms
  by (auto simp: commit_step_def commit_is_bot_def Let_def split: if_splits sum.splits)

lemma logins_review_step:
  "logins (review_step author quarter L r) =
     logins L \<union> (if known_human (review_login r) \<and> review_login r \<noteq> author
                   then {review_login r} else {})"
  by (auto simp: review_step_def known_human_def Let_def)

lemma logins_foldl_review_step:
  "logins (foldl (review_step author quarter) L rs) =
     logins L \<union> set (filter (\<lambda>k. known_human k \<and> k \<noteq> author) (map review_login rs))"
  by (induction rs arbitrary: L) (auto simp: logins_review_step)

lemma logins_foldl_comments:
  "logins (foldl (\<lambda>L' p. if p \<in> logins L' then modify p f L' else L') L ps) = logins L"
  by (induction ps arbitrary: L) auto

lemma logins_distribute_comments [simp]: "logins (distribute_comments L i) = logins L"
  by (simp add: distribute_comments_def logins_foldl_comments)

lemma logins_issue_step:
  assumes "issue_step self now L i = Inr L'"
  shows "logins L' =
     logins L \<union> (if known_human (issue_login i)
                   then insert (issue_login i) (counted_reviewers i) else {})"
  using assms
  by (auto simp: issue_step_def known_human_def counted_reviewers_def Let_def
        logins_foldl_review_step split: if_splits sum.splits)

lemma logins_for_each_commit_step:
  assumes "for_each (commit_step self now) L cs = Inr L'"
  shows "logins L' = logins L \<union> commit_logins cs"
  using assms
proof (induction cs arbitrary: L)
  case Nil
  then show ?case by (simp add: commit_logins_def)
next
  case (Cons c cs)
  from Cons.prems obtain L1 where 1: "commit_step self now L c = Inr L1"
    and 2: "for_each (commit_step self now) L1 cs = Inr L'"
    by (auto split: sum.splits)
  show ?case
    using Cons.IH [OF 2] logins_commit_step [OF 1]
    by (auto simp: commit_logins_def)
qed

lemma logins_for_each_issue_step:
  assumes "for_each (issue_step self now) L xs = Inr L'"
  shows "logins L' = logins L \<union> issue_logins xs \<union> reviewer_logins xs"
  using assms
proof (induction xs arbitrary: L)
  case Nil
  then show ?case by (simp add: issue_logins_def reviewer_logins_def)
next
  case (Cons i xs)
  from Cons.prems obtain L1 where 1: "issue_step self now L i = Inr L1"
    and 2: "for_each (issue_step self now) L1 xs = Inr L'"
    by (auto split: sum.splits)
  show ?case
    using Cons.IH [OF 2] logins_issue_step [OF 1]
    by (auto simp: issue_logins_def reviewer_logins_def)
qed

lemma logins_map_finalize [simp]: "logins (map (\<lambda>(k, v). (k, finalize v)) L) = logins L"
  by (force simp: logins_def)

lemma logins_aggregate:
  assumes "aggregate self now cs xs = Inr L"
  shows "logins L = commit_logins cs \<union> issue_logins xs \<union> reviewer_logins xs"
proof -
  from assms obtain L1 L2 where 1: "for_each (commit_step self now) [] cs = Inr L1"
    and 2: "for_each (issue_step self now) L1 xs = Inr L2"
    and L: "L = map (\<lambda>(k, v). (k, finalize v)) L2"
    by (auto simp: aggregate_def split: sum.splits)
  have "logins L1 = commit_logins cs"
    using logins_for_each_commit_step [OF 1] by (simp add: logins_def)
  then show ?thesis
    using logins_for_each_issue_step [OF 2] unfolding L by simp
qed

lemma total_activity_finalize:
  "total_activity (finalize e) = counters e"
  "commits (finalize e) = commits e" "issues_created (finalize e) = issues_created e"
  "prs_created (finalize e) = prs_created e" "reviews_given (finalize e) = reviews_given e"
  "comments_made (finalize e) = comments_made e"
  by (simp_all add: finalize_def counters_def Let_def)

lemma totals_aggregate:
  assumes "aggregate self now cs xs = Inr L"
  shows "\<forall>e \<in> snd ` set L. total_activity e =
           commits e + issues_created e + prs_created e + reviews_given e + comments_made e"
  using assms
  by (auto simp: aggregate_def total_activity_finalize counters_def split: sum.splits)


subsection \<open>The aggregation returns\<close>

lemma commit_step_total:
  "4 \<le> analysis_window_days self \<Longrightarrow> \<exists>L'. commit_step self now L c = Inr L'"
  using get_quarter_total [of self now "commit_author_date c"]
  by (auto simp: commit_step_def Let_def)

lemma issue_step_total:
  "4 \<le> analysis_window_days self \<Longrightarrow> \<exists>L'. issue_step self now L i = Inr L'"
  using get_quarter_total [of self now "created_at i"]
  by (auto simp: issue_step_def Let_def)

lemma for_each_total:
  assumes "\<And>s x. \<exists>s'. body s x = Inr s'"
  shows "\<exists>s'. for_each body s xs = Inr s'"
proof (induction xs arbitrary: s)
  case Nil
  show ?case by simp
next
  case (Cons x xs)
  obtain s1 where "body s x = Inr s1" using assms by blast
  then show ?case using Cons.IH [of s1] by simp
qed

lemma aggregate_total:
  assumes "4 \<le> analysis_window_days self"
  shows "\<exists>L. aggregate self now cs xs = Inr L"
proof -
  obtain L1 where 1: "for_each (commit_step self now) [] cs = Inr L1"
    using for_each_total [of "commit_step self now"] commit_step_total [OF assms] by blast
  obtain L2 where 2: "for_each (issue_step self now) L1 xs = Inr L2"
    using for_each_total [of "issue_step self now"] issue_step_total [OF assms] by blast
  show ?thesis using 1 2 by (simp add: aggregate_def)
qed

subsection \<open>The logins of the ledger\<close>

lemma not_bot_alice: "is_bot_account ''alice'' [] [] = False"
  by code_simp

lemma bot_dependabot: "is_bot_account ''dependabot[bot]'' [] [] = True"
  by code_simp

text \<open>
  Claim C2, as the code has it. After the aggregation pass, the logins of the ledger other
  than \<open>unknown\<close> are exactly: the resolved author logins other than \<open>unknown\<close> of the
  in-window commits that are not flagged as bot (on login, name and email), the author
  logins of the in-window issues and pull requests that are known and not bots, and the
  known non-bot reviewers, different from the author, of those in-window records whose own
  author is known and not a bot. The total activity of every entry is the sum of its five
  counters.
\<close>

theorem ledger_logins_and_totals:
  assumes "aggregate self now cs xs = Inr L"
  shows "logins L - {''unknown''} =
           (commit_logins cs - {''unknown''}) \<union> issue_logins xs \<union> reviewer_logins xs
         \<and> (\<forall>e \<in> snd ` set L. total_activity e =
               commits e + issues_created e + prs_created e + reviews_given e + comments_made e)"
proof -
  have "''unknown'' \<notin> issue_logins xs" "''unknown'' \<notin> reviewer_logins xs"
    by (auto simp: issue_logins_def reviewer_logins_def counted_reviewers_def known_human_def)
  then show ?thesis
    using logins_aggregate [OF assms] totals_aggregate [OF assms] by auto
qed

theorem ledger_logins_and_totals_witness:
  "aggregate \<lparr>analysis_window_days = 365, custom_domains = []\<rparr> 0
       [\<lparr>author_login = Some ''alice'', commit_author_name = Some ''Alice'',
         commit_author_email = Some ''alice@gmail.com'', commit_author_date = Some 0\<rparr>]
       [\<lparr>user_login = Some ''alice'', created_at = Some 0, pull_request = True,
         reviews = [\<lparr>review_user_login = Some ''bob''\<rparr>], comments = 0, participants = []\<rparr>]
     = Inr [(''alice'', \<lparr>name = ''Alice'', email = ''alice@gmail.com'', email_type = ''personal'',
                commits = 1, issues_created = 0, prs_created = 1, reviews_given = 0,
                comments_made = 0, total_activity = 2, quarterly_activity = [0, 0, 0, 2],
                activity_trend = Some ''insufficient_data''\<rparr>),
            (''bob'', \<lparr>name = ''bob'', email = [], email_type = ''N/A'',
                commits = 0, issues_created = 0, prs_created = 0, reviews_given = 1,
                comments_made = 0, total_activity = 1, quarterly_activity = [0, 0, 0, 1],
                activity_trend = Some ''insufficient_data''\<rparr>)]
   \<and> {''alice'', ''bob''} - {''unknown''} =
       (commit_logins
          [\<lparr>author_login = Some ''alice'', commit_author_name = Some ''Alice'',
            commit_author_email = Some ''alice@gmail.com'', commit_author_date = Some 0\<rparr>]
        - {''unknown''})
       \<union> issue_logins
          [\<lparr>user_login = Some ''alice'', created_at = Some 0, pull_request = True,
            reviews = [\<lparr>review_user_login = Some ''bob''\<rparr>], comments = 0, participants = []\<rparr>]
       \<union> reviewer_logins
          [\<lparr>user_login = Some ''alice'', created_at = Some 0, pull_request = True,
            reviews = [\<lparr>review_user_login = Some ''bob''\<rparr>], comments = 0, participants = []\<rparr>]"
proof -
  have h: "aggregate \<lparr>analysis_window_days = 365, custom_domains = []\<rparr> 0
       [\<lparr>author_login = Some ''alice'', commit_author_name = Some ''Alice'',
         commit_author_email = Some ''alice@gmail.com'', commit_author_date = Some 0\<rparr>]
       [\<lparr>user_login = Some ''alice'', created_at = Some 0, pull_request = True,
         reviews = [\<lparr>review_user_login = Some ''bob''\<rparr>], comments = 0, participants = []\<rparr>]
     = Inr [(''alice'', \<lparr>name = ''Alice'', email = ''alice@gmail.com'', email_type = ''personal'',
                commits = 1, issues_created = 0, prs_created = 1, reviews_given = 0,
                comments_made = 0, total_activity = 2, quarterly_activity = [0, 0, 0, 2],
                activity_trend = Some ''insufficient_data''\<rparr>),
            (''bob'', \<lparr>name = ''bob'', email = [], email_type = ''N/A'',
                commits = 0, issues_created = 0, prs_created = 0, reviews_given = 1,
                comments_made = 0, total_activity = 1, quarterly_activity = [0, 0, 0, 1],
                activity_trend = Some ''insufficient_data''\<rparr>)]"
    by code_simp
  have l: "logins [(''alice'', \<lparr>name = ''Alice'', email = ''alice@gmail.com'', email_type = ''personal'',
                commits = 1, issues_created = 0, prs_created = 1, reviews_given = 0,
                comments_made = 0, total_activity = 2, quarterly_activity = [0, 0, 0, 2],
                activity_trend = Some ''insufficient_data''\<rparr>),
            (''bob'', \<lparr>name = ''bob'', email = [], email_type = ''N/A'',
                commits = 0, issues_created = 0, prs_created = 0, reviews_given = 1,
                comments_made = 0, total_activity = 1, quarterly_activity = [0, 0, 0, 1],
                activity_trend = Some ''insufficient_data''\<rparr>)] = {''alice'', ''bob''}"
    by (simp add: logins_def)
  from ledger_logins_and_totals [OF h, THEN conjunct1, unfolded l] h
  show ?thesis by (intro conjI)
qed

text \<open>The claim as stated counts every known non-bot reviewer. A reviewer of a pull request
  that a bot opened is in the specified set and not in the ledger.\<close>

theorem ledger_logins_counterexample:
  "aggregate \<lparr>analysis_window_days = 365, custom_domains = []\<rparr> 0 []
     [\<lparr>user_login = Some ''dependabot[bot]'', created_at = Some 0, pull_request = True,
       reviews = [\<lparr>review_user_login = Some ''alice''\<rparr>], comments = 0, participants = []\<rparr>]
     = Inr []
   \<and> ''alice'' \<in> specified_logins []
     [\<lparr>user_login = Some ''dependabot[bot]'', created_at = Some 0, pull_request = True,
       reviews = [\<lparr>review_user_login = Some ''alice''\<rparr>], comments = 0, participants = []\<rparr>]"
  by (simp add: aggregate_def issue_step_def issue_login_def bot_dependabot
        specified_logins_def known_human_def review_login_def not_bot_alice)

subsection \<open>Reviews\<close>

lemma well_formed_entry:
  "well_formed L \<Longrightarrow> map_of L k = Some e \<Longrightarrow> length (quarterly_activity e) = 4"
  by (auto simp: well_formed_def dest!: map_of_SomeD intro: rev_image_eqI)

lemma well_formed_review_step:
  "well_formed L \<Longrightarrow> well_formed (review_step author quarter L r)"
  by (auto simp: review_step_def Let_def new_contributor_def
        intro!: well_formed_bump_quarter_opt well_formed_modify well_formed_ensure)

lemma well_formed_foldl_review_step:
  "well_formed L \<Longrightarrow> well_formed (foldl (review_step author quarter) L rs)"
  by (induction rs arbitrary: L) (auto simp: well_formed_review_step)

lemma reviews_of_review_step:
  "reviews_of (review_step author quarter L r) k =
     reviews_of L k +
     (if review_login r = k \<and> known_human k \<and> k \<noteq> author then 1 else 0)"
  by (cases quarter)
     (auto simp: review_step_def reviews_of_def known_human_def Let_def map_of_modify
        map_of_ensure map_of_bump_quarter_opt bump_quarter_def new_contributor_def
        logins_map_of split: option.splits)

lemma reviews_of_foldl_review_step:
  "reviews_of (foldl (review_step author quarter) L rs) k =
     reviews_of L k +
     (if known_human k \<and> k \<noteq> author
      then length (filter (\<lambda>r. review_login r = k) rs) else 0)"
  by (induction rs arbitrary: L) (auto simp: reviews_of_review_step)

lemma new_contributor_quarters:
  "length (quarterly_activity (new_contributor nm addr et)) = 4"
  "m < 4 \<Longrightarrow> quarterly_activity (new_contributor nm addr et) ! m = 0"
  by (auto simp: new_contributor_def nth_Cons')

lemma bump_quarter_nth:
  "nat q < length (quarterly_activity e) \<Longrightarrow>
     quarterly_activity (bump_quarter q e) ! m =
       quarterly_activity e ! m + (if m = nat q then 1 else 0)"
  by (simp add: bump_quarter_def nth_list_update)

lemma quarter_count_review_step_None:
  assumes "m < 4"
  shows "quarter_count (review_step author None L r) k m = quarter_count L k m"
  using assms
  by (auto simp: review_step_def quarter_count_def known_human_def Let_def map_of_modify
        map_of_ensure map_of_bump_quarter_opt new_contributor_quarters
        logins_map_of split: option.splits)

lemma quarter_count_review_step_Some:
  assumes "well_formed L" "0 \<le> q" "q \<le> 3" "m < 4"
  shows "quarter_count (review_step author (Some q) L r) k m =
     quarter_count L k m +
     (if review_login r = k \<and> known_human k \<and> k \<noteq> author \<and> m = nat q then 1 else 0)"
proof -
  have n: "nat q < 4" using assms(2,3) by simp
  have len: "\<And>e. map_of L k = Some e \<Longrightarrow> nat q < length (quarterly_activity e)"
    using well_formed_entry [OF assms(1)] n by fastforce
  show ?thesis
    using assms(4) len n
    by (auto simp: review_step_def quarter_count_def known_human_def Let_def map_of_modify
          map_of_ensure map_of_bump_quarter_opt new_contributor_quarters
          bump_quarter_nth logins_map_of split: option.splits)
qed

lemma quarter_count_foldl_review_step_None:
  assumes "m < 4"
  shows "quarter_count (foldl (review_step author None) L rs) k m = quarter_count L k m"
  by (induction rs arbitrary: L) (auto simp: quarter_count_review_step_None [OF assms])

lemma quarter_count_foldl_review_step_Some:
  assumes "well_formed L" "0 \<le> q" "q \<le> 3" "m < 4"
  shows "quarter_count (foldl (review_step author (Some q)) L rs) k m =
     quarter_count L k m +
     (if known_human k \<and> k \<noteq> author \<and> m = nat q
      then length (filter (\<lambda>r. review_login r = k) rs) else 0)"
  using assms(1)
proof (induction rs arbitrary: L)
  case Nil
  show ?case by simp
next
  case (Cons r rs)
  have wf: "well_formed (review_step author (Some q) L r)"
    using Cons.prems by (rule well_formed_review_step)
  show ?case
    using Cons.IH [OF wf] quarter_count_review_step_Some [OF Cons.prems assms(2,3,4), of author r k]
    by auto
qed


subsection \<open>Comment distribution\<close>

lemma map_of_foldl_comments:
  "map_of (foldl (\<lambda>L' p. if p \<in> logins L' then modify p f L' else L') L ps) k =
     map_option (f ^^ count_list ps k) (map_of L k)"
proof (induction ps arbitrary: L)
  case Nil
  show ?case by (cases "map_of L k") simp_all
next
  case (Cons p ps)
  have step: "map_of (if p \<in> logins L then modify p f L else L) k =
      (if k = p then map_option f (map_of L k) else map_of L k)"
    by (auto simp: map_of_modify logins_map_of)
  have "map_of (foldl (\<lambda>L' p. if p \<in> logins L' then modify p f L' else L') L (p # ps)) k =
      map_option (f ^^ count_list ps k) (if k = p then map_option f (map_of L k) else map_of L k)"
    by (simp add: Cons.IH step)
  also have "\<dots> = map_option (f ^^ count_list (p # ps) k) (map_of L k)"
    by (cases "map_of L k") (auto simp: funpow_swap1)
  finally show ?case .
qed

lemma add_comments_funpow:
  "((\<lambda>e. e\<lparr>comments_made := comments_made e + n\<rparr>) ^^ j) =
     (\<lambda>e. e\<lparr>comments_made := comments_made e + j * n\<rparr>)"
  by (induction j) (auto simp: algebra_simps)

lemma map_of_distribute_comments:
  "map_of (distribute_comments L i) k =
     (if comments i > 0 \<and> human_participants i \<noteq> []
      then map_option (\<lambda>e. e\<lparr>comments_made := comments_made e
               + count_list (human_participants i) k * comments_per_participant i\<rparr>) (map_of L k)
      else map_of L k)"
proof -
  have "human_participants i \<noteq> [] \<Longrightarrow> participants i \<noteq> []"
    by (auto simp: human_participants_def)
  then show ?thesis
    by (auto simp: distribute_comments_def map_of_foldl_comments add_comments_funpow)
qed

lemma distribute_comments_obs:
  "reviews_of (distribute_comments L i) k = reviews_of L k"
  "quarter_count (distribute_comments L i) k m = quarter_count L k m"
  "comments_of (distribute_comments L i) k =
     comments_of L k +
     (if comments i > 0 \<and> human_participants i \<noteq> [] \<and> k \<in> logins L
      then count_list (human_participants i) k * comments_per_participant i else 0)"
  by (auto simp: reviews_of_def quarter_count_def comments_of_def map_of_distribute_comments
        logins_map_of split: option.splits)

lemma comments_of_review_step:
  "comments_of (review_step author quarter L r) k = comments_of L k"
  by (cases quarter)
     (auto simp: review_step_def comments_of_def Let_def map_of_modify
        map_of_ensure map_of_bump_quarter_opt bump_quarter_def new_contributor_def
        logins_map_of split: option.splits)

lemma comments_of_foldl_review_step:
  "comments_of (foldl (review_step author quarter) L rs) k = comments_of L k"
  by (induction rs arbitrary: L) (auto simp: comments_of_review_step)

subsection \<open>One issue or pull-request record\<close>

lemma issue_step_cases:
  assumes "issue_step self now L i = Inr L'" and "known_human (issue_login i)"
  obtains quarter L3 where
    "get_quarter self now (created_at i) = Inr quarter"
    "L' = distribute_comments (foldl (review_step (issue_login i) quarter) L3 (reviews i)) i"
    "logins L3 = insert (issue_login i) (logins L)"
    "\<And>k. k \<noteq> issue_login i \<Longrightarrow> map_of L3 k = map_of L k"
    "\<And>k. comments_of L3 k = comments_of L k"
    "well_formed L \<Longrightarrow> well_formed L3"
proof -
  define a where "a = issue_login i"
  define g where "g = (if pull_request i
      then (\<lambda>e. e\<lparr>prs_created := prs_created e + 1\<rparr>)
      else (\<lambda>e::contributor. e\<lparr>issues_created := issues_created e + 1\<rparr>))"
  from assms obtain quarter where q: "get_quarter self now (created_at i) = Inr quarter"
    by (auto simp: issue_step_def known_human_def Let_def split: sum.splits)
  define L3 where "L3 = bump_quarter_opt quarter a (modify a g (ensure a (new_contributor a [] ''N/A'') L))"
  have L': "L' = distribute_comments (foldl (review_step a quarter) L3 (reviews i)) i"
    using assms q unfolding L3_def g_def a_def
    by (auto simp: issue_step_def known_human_def Let_def)
  have 1: "logins L3 = insert a (logins L)" by (simp add: L3_def)
  have 2: "\<And>k. k \<noteq> a \<Longrightarrow> map_of L3 k = map_of L k"
    by (simp add: L3_def map_of_bump_quarter_opt map_of_modify map_of_ensure)
  have gc: "\<And>e. comments_made (g e) = comments_made e"
    and gl: "\<And>e. length (quarterly_activity (g e)) = length (quarterly_activity e)"
    by (auto simp: g_def)
  have 3: "\<And>k. comments_of L3 k = comments_of L k"
    by (cases quarter)
       (auto simp: L3_def comments_of_def map_of_bump_quarter_opt map_of_modify map_of_ensure
          gc bump_quarter_def new_contributor_def logins_map_of split: option.splits)
  have 4: "well_formed L \<Longrightarrow> well_formed L3"
    unfolding L3_def
    by (intro well_formed_bump_quarter_opt well_formed_modify well_formed_ensure)
       (auto simp: gl new_contributor_def)
  show ?thesis
    using that [OF q L' [unfolded a_def] 1 [unfolded a_def] 2 [unfolded a_def] 3] 4 by blast
qed


text \<open>
  Claim C7, as the code has it. For an in-window record whose own author is known and not a
  bot, every nested review whose reviewer is known, not a bot and different from the author
  gives the reviewer a ledger entry (created when there was none), and over the record the
  reviewer's \<open>reviews_given\<close> grows by the number of that reviewer's reviews on the record.
  The same number is added to the reviewer's quarterly slot of the record's creation
  timestamp, and to no other slot; nothing is added when that timestamp has no bucket.
\<close>

theorem review_counted_for_reviewer:
  assumes "well_formed L"
    and "issue_step self now L i = Inr L'"
    and "known_human (issue_login i)"
    and "r \<in> set (reviews i)"
    and "known_human (review_login r)"
    and "review_login r \<noteq> issue_login i"
  shows "review_login r \<in> logins L' \<and>
         1 \<le> length (filter (\<lambda>r'. review_login r' = review_login r) (reviews i)) \<and>
         reviews_of L' (review_login r) =
           reviews_of L (review_login r)
           + length (filter (\<lambda>r'. review_login r' = review_login r) (reviews i)) \<and>
         (\<forall>m < 4. quarter_count L' (review_login r) m =
            quarter_count L (review_login r) m
            + (if get_quarter self now (created_at i) = Inr (Some (int m))
               then length (filter (\<lambda>r'. review_login r' = review_login r) (reviews i))
               else 0))"
proof -
  define k where "k = review_login r"
  define n where "n = length (filter (\<lambda>r'. review_login r' = k) (reviews i))"
  from assms(2,3) obtain quarter L3 where
    q: "get_quarter self now (created_at i) = Inr quarter"
    and L': "L' = distribute_comments (foldl (review_step (issue_login i) quarter) L3 (reviews i)) i"
    and same: "\<And>x. x \<noteq> issue_login i \<Longrightarrow> map_of L3 x = map_of L x"
    and wf: "well_formed L \<Longrightarrow> well_formed L3"
    by (rule issue_step_cases) blast
  have kh: "known_human k" and ka: "k \<noteq> issue_login i"
    using assms(5,6) by (simp_all add: k_def)
  have wf3: "well_formed L3" using wf assms(1) by simp
  have r3: "reviews_of L3 k = reviews_of L k"
    and q3: "\<And>m. quarter_count L3 k m = quarter_count L k m"
    using same [OF ka] by (simp_all add: reviews_of_def quarter_count_def)
  have "k \<in> counted_reviewers i"
    using assms(4) kh ka by (auto simp: counted_reviewers_def k_def)
  then have 1: "k \<in> logins L'"
    using logins_issue_step [OF assms(2)] assms(3) by simp
  have "r \<in> set (filter (\<lambda>r'. review_login r' = k) (reviews i))"
    using assms(4) by (simp add: k_def)
  then have 2: "1 \<le> n"
    unfolding n_def by (metis One_nat_def Suc_leI length_pos_if_in_set)
  have 3: "reviews_of L' k = reviews_of L k + n"
    unfolding L' n_def using kh ka
    by (simp add: distribute_comments_obs reviews_of_foldl_review_step r3)
  have 4: "quarter_count L' k m =
      quarter_count L k m + (if get_quarter self now (created_at i) = Inr (Some (int m)) then n else 0)"
    if m: "m < 4" for m
  proof (cases quarter)
    case None
    then show ?thesis
      unfolding L' using q m
      by (simp add: distribute_comments_obs quarter_count_foldl_review_step_None q3)
  next
    case (Some qq)
    have rng: "0 \<le> qq" "qq \<le> 3"
      using get_quarter_range [of self now "created_at i" qq] q Some by simp_all
    have eq: "(qq = int m) = (m = nat qq)" using rng by auto
    show ?thesis
      unfolding L' n_def using q Some kh ka
      by (simp add: distribute_comments_obs
            quarter_count_foldl_review_step_Some [OF wf3 rng m] q3 eq)
  qed
  show ?thesis
    using 1 2 3 4 unfolding k_def [symmetric] n_def [symmetric] by blast
qed

theorem review_counted_for_reviewer_witness:
  "issue_step \<lparr>analysis_window_days = 365, custom_domains = []\<rparr> 0 []
       \<lparr>user_login = Some ''alice'', created_at = Some 0, pull_request = True,
        reviews = [\<lparr>review_user_login = Some ''bob''\<rparr>], comments = 0, participants = []\<rparr>
     = Inr [(''alice'', \<lparr>name = ''alice'', email = [], email_type = ''N/A'',
                commits = 0, issues_created = 0, prs_created = 1, reviews_given = 0,
                comments_made = 0, total_activity = 0, quarterly_activity = [0, 0, 0, 1],
                activity_trend = None\<rparr>),
            (''bob'', \<lparr>name = ''bob'', email = [], email_type = ''N/A'',
                commits = 0, issues_created = 0, prs_created = 0, reviews_given = 1,
                comments_made = 0, total_activity = 0, quarterly_activity = [0, 0, 0, 1],
                activity_trend = None\<rparr>)]
   \<and> reviews_of [(''alice'', \<lparr>name = ''alice'', email = [], email_type = ''N/A'',
                commits = 0, issues_created = 0, prs_created = 1, reviews_given = 0,
                comments_made = 0, total_activity = 0, quarterly_activity = [0, 0, 0, 1],
                activity_trend = None\<rparr>),
            (''bob'', \<lparr>name = ''bob'', email = [], email_type = ''N/A'',
                commits = 0, issues_created = 0, prs_created = 0, reviews_given = 1,
                comments_made = 0, total_activity = 0, quarterly_activity = [0, 0, 0, 1],
                activity_trend = None\<rparr>)] ''bob'' = 1
   \<and> quarter_count [(''alice'', \<lparr>name = ''alice'', email = [], email_type = ''N/A'',
                commits = 0, issues_created = 0, prs_created = 1, reviews_given = 0,
                comments_made = 0, total_activity = 0, quarterly_activity = [0, 0, 0, 1],
                activity_trend = None\<rparr>),
            (''bob'', \<lparr>name = ''bob'', email = [], email_type = ''N/A'',
                commits = 0, issues_created = 0, prs_created = 0, reviews_given = 1,
                comments_made = 0, total_activity = 0, quarterly_activity = [0, 0, 0, 1],
                activity_trend = None\<rparr>)] ''bob'' 3 = 1"
proof -
  let ?i = "\<lparr>user_login = Some ''alice'', created_at = Some 0, pull_request = True,
        reviews = [\<lparr>review_user_login = Some ''bob''\<rparr>], comments = 0, participants = []\<rparr>"
  let ?L = "[(''alice'', \<lparr>name = ''alice'', email = [], email_type = ''N/A'',
                commits = 0, issues_created = 0, prs_created = 1, reviews_given = 0,
                comments_made = 0, total_activity = 0, quarterly_activity = [0, 0, 0, 1],
                activity_trend = None\<rparr>),
            (''bob'', \<lparr>name = ''bob'', email = [], email_type = ''N/A'',
                commits = 0, issues_created = 0, prs_created = 0, reviews_given = 1,
                comments_made = 0, total_activity = 0, quarterly_activity = [0, 0, 0, 1],
                activity_trend = None\<rparr>)]"
  have h: "issue_step \<lparr>analysis_window_days = 365, custom_domains = []\<rparr> 0 [] ?i = Inr ?L"
    by code_simp
  have wf: "well_formed []" by (simp add: well_formed_def)
  have a: "known_human (issue_login ?i)" by code_simp
  have r: "\<lparr>review_user_login = Some ''bob''\<rparr> \<in> set (reviews ?i)" by simp
  have b: "known_human (review_login \<lparr>review_user_login = Some ''bob''\<rparr>)" by code_simp
  have ne: "review_login \<lparr>review_user_login = Some ''bob''\<rparr> \<noteq> issue_login ?i"
    by (simp add: review_login_def issue_login_def)
  have q: "get_quarter \<lparr>analysis_window_days = 365, custom_domains = []\<rparr> 0 (created_at ?i) = Inr (Some (int 3))"
    by (simp add: get_quarter_def day_def)
  from review_counted_for_reviewer [OF wf h a r b ne]
  have "reviews_of ?L ''bob'' = reviews_of [] ''bob'' + 1"
    and "quarter_count ?L ''bob'' 3 = quarter_count [] ''bob'' 3 + 1"
    using q by (simp_all add: review_login_def)
  then show ?thesis
    using h by (simp add: reviews_of_def quarter_count_def)
qed

text \<open>The claim as stated covers every in-window pull request. A pull request that a bot
  opened is skipped as a whole, and its reviewer gets no entry.\<close>

theorem review_counted_for_reviewer_counterexample:
  "issue_step \<lparr>analysis_window_days = 365, custom_domains = []\<rparr> 0 []
       \<lparr>user_login = Some ''renovate[bot]'', created_at = Some 0, pull_request = True,
        reviews = [\<lparr>review_user_login = Some ''bob''\<rparr>], comments = 0, participants = []\<rparr>
     = Inr []
   \<and> known_human ''bob'' \<and> ''bob'' \<noteq> ''renovate[bot]''"
  by code_simp

text \<open>
  Claim C8, as the code has it. For a record whose own author is known and not a bot, with
  a comment count of at least 1 and at least one human participant, the share is
  \<open>max 1 (comments div number of human participants)\<close>, never less than 1. Each login
  that has a ledger entry when the comments are distributed (the ledger before the record,
  the record's author and its counted reviewers) gets the share added to \<open>comments_made\<close>
  once for each of its occurrences in the list of human participants. A participant without
  an entry gets none and no comments. With 9 comments and the human participants a, b and c,
  all three with an entry, each of them gets 3.
\<close>

theorem comments_distributed:
  assumes "issue_step self now L i = Inr L'"
    and "known_human (issue_login i)"
    and "comments i \<ge> 1"
    and "human_participants i \<noteq> []"
  shows "logins L' = logins L \<union> insert (issue_login i) (counted_reviewers i) \<and>
         1 \<le> max 1 (comments i div length (human_participants i)) \<and>
         (\<forall>p. comments_of L' p =
            comments_of L p
            + (if p \<in> logins L'
               then count_list (human_participants i) p
                    * max 1 (comments i div length (human_participants i))
               else 0))"
proof -
  from assms(1,2) obtain quarter L3 where
    L': "L' = distribute_comments (foldl (review_step (issue_login i) quarter) L3 (reviews i)) i"
    and c3: "\<And>k. comments_of L3 k = comments_of L k"
    by (rule issue_step_cases) blast
  have 1: "logins L' = logins L \<union> insert (issue_login i) (counted_reviewers i)"
    using logins_issue_step [OF assms(1)] assms(2) by simp
  have lg: "logins (foldl (review_step (issue_login i) quarter) L3 (reviews i)) = logins L'"
    unfolding L' by simp
  have 3: "comments_of L' p =
      comments_of L p + (if p \<in> logins L'
         then count_list (human_participants i) p
              * max 1 (comments i div length (human_participants i)) else 0)" for p
    using assms(3,4) lg
    by (subst L') (simp add: distribute_comments_obs comments_of_foldl_review_step c3
          comments_per_participant_def)
  show ?thesis using 1 3 by simp
qed

theorem comments_distributed_witness:
  "issue_step \<lparr>analysis_window_days = 365, custom_domains = []\<rparr> 0 []
       \<lparr>user_login = Some ''a'', created_at = Some 0, pull_request = True,
        reviews = [\<lparr>review_user_login = Some ''b''\<rparr>, \<lparr>review_user_login = Some ''c''\<rparr>],
        comments = 9, participants = [''a'', ''b'', ''c'']\<rparr>
     = Inr [(''a'', \<lparr>name = ''a'', email = [], email_type = ''N/A'',
                commits = 0, issues_created = 0, prs_created = 1, reviews_given = 0,
                comments_made = 3, total_activity = 0, quarterly_activity = [0, 0, 0, 1],
                activity_trend = None\<rparr>),
            (''b'', \<lparr>name = ''b'', email = [], email_type = ''N/A'',
                commits = 0, issues_created = 0, prs_created = 0, reviews_given = 1,
                comments_made = 3, total_activity = 0, quarterly_activity = [0, 0, 0, 1],
                activity_trend = None\<rparr>),
            (''c'', \<lparr>name = ''c'', email = [], email_type = ''N/A'',
                commits = 0, issues_created = 0, prs_created = 0, reviews_given = 1,
                comments_made = 3, total_activity = 0, quarterly_activity = [0, 0, 0, 1],
                activity_trend = None\<rparr>)]
   \<and> comments_of [(''a'', \<lparr>name = ''a'', email = [], email_type = ''N/A'',
                commits = 0, issues_created = 0, prs_created = 1, reviews_given = 0,
                comments_made = 3, total_activity = 0, quarterly_activity = [0, 0, 0, 1],
                activity_trend = None\<rparr>),
            (''b'', \<lparr>name = ''b'', email = [], email_type = ''N/A'',
                commits = 0, issues_created = 0, prs_created = 0, reviews_given = 1,
                comments_made = 3, total_activity = 0, quarterly_activity = [0, 0, 0, 1],
                activity_trend = None\<rparr>),
            (''c'', \<lparr>name = ''c'', email = [], email_type = ''N/A'',
                commits = 0, issues_created = 0, prs_created = 0, reviews_given = 1,
                comments_made = 3, total_activity = 0, quarterly_activity = [0, 0, 0, 1],
                activity_trend = None\<rparr>)] ''a'' = 3
   \<and> comments_of [(''a'', \<lparr>name = ''a'', email = [], email_type = ''N/A'',
                commits = 0, issues_created = 0, prs_created = 1, reviews_given = 0,
                comments_made = 3, total_activity = 0, quarterly_activity = [0, 0, 0, 1],
                activity_trend = None\<rparr>),
            (''b'', \<lparr>name = ''b'', email = [], email_type = ''N/A'',
                commits = 0, issues_created = 0, prs_created = 0, reviews_given = 1,
                comments_made = 3, total_activity = 0, quarterly_activity = [0, 0, 0, 1],
                activity_trend = None\<rparr>),
            (''c'', \<lparr>name = ''c'', email = [], email_type = ''N/A'',
                commits = 0, issues_created = 0, prs_created = 0, reviews_given = 1,
                comments_made = 3, total_activity = 0, quarterly_activity = [0, 0, 0, 1],
                activity_trend = None\<rparr>)] ''b'' = 3
   \<and> comments_of [(''a'', \<lparr>name = ''a'', email = [], email_type = ''N/A'',
                commits = 0, issues_created = 0, prs_created = 1, reviews_given = 0,
                comments_made = 3, total_activity = 0, quarterly_activity = [0, 0, 0, 1],
                activity_trend = None\<rparr>),
            (''b'', \<lparr>name = ''b'', email = [], email_type = ''N/A'',
                commits = 0, issues_created = 0, prs_created = 0, reviews_given = 1,
                comments_made = 3, total_activity = 0, quarterly_activity = [0, 0, 0, 1],
                activity_trend = None\<rparr>),
            (''c'', \<lparr>name = ''c'', email = [], email_type = ''N/A'',
                commits = 0, issues_created = 0, prs_created = 0, reviews_given = 1,
                comments_made = 3, total_activity = 0, quarterly_activity = [0, 0, 0, 1],
                activity_trend = None\<rparr>)] ''c'' = 3"
proof -
  let ?i = "\<lparr>user_login = Some ''a'', created_at = Some 0, pull_request = True,
        reviews = [\<lparr>review_user_login = Some ''b''\<rparr>, \<lparr>review_user_login = Some ''c''\<rparr>],
        comments = 9, participants = [''a'', ''b'', ''c'']\<rparr>"
  let ?L = "[(''a'', \<lparr>name = ''a'', email = [], email_type = ''N/A'',
                commits = 0, issues_created = 0, prs_created = 1, reviews_given = 0,
                comments_made = 3, total_activity = 0, quarterly_activity = [0, 0, 0, 1],
                activity_trend = None\<rparr>),
            (''b'', \<lparr>name = ''b'', email = [], email_type = ''N/A'',
                commits = 0, issues_created = 0, prs_created = 0, reviews_given = 1,
                comments_made = 3, total_activity = 0, quarterly_activity = [0, 0, 0, 1],
                activity_trend = None\<rparr>),
            (''c'', \<lparr>name = ''c'', email = [], email_type = ''N/A'',
                commits = 0, issues_created = 0, prs_created = 0, reviews_given = 1,
                comments_made = 3, total_activity = 0, quarterly_activity = [0, 0, 0, 1],
                activity_trend = None\<rparr>)]"
  have h: "issue_step \<lparr>analysis_window_days = 365, custom_domains = []\<rparr> 0 [] ?i = Inr ?L"
    by code_simp
  have a: "known_human (issue_login ?i)" by code_simp
  have c: "comments ?i \<ge> 1" by simp
  have hp: "human_participants ?i = [''a'', ''b'', ''c'']" by code_simp
  then have ne: "human_participants ?i \<noteq> []" by simp
  have lg: "logins ?L = {''a'', ''b'', ''c''}" by (simp add: logins_def)
  from comments_distributed [OF h a c ne]
  have "\<forall>p. comments_of ?L p =
      comments_of [] p + (if p \<in> logins ?L then count_list [''a'', ''b'', ''c''] p * 3 else 0)"
    unfolding hp by simp
  then have "comments_of ?L ''a'' = 3" "comments_of ?L ''b'' = 3" "comments_of ?L ''c'' = 3"
    unfolding lg by (simp_all add: comments_of_def)
  then show ?thesis using h by simp
qed

text \<open>The claim as stated gives the share to every human participant. Participants who
  have no ledger entry get nothing: here only the author has one.\<close>

theorem comments_distributed_counterexample:
  "issue_step \<lparr>analysis_window_days = 365, custom_domains = []\<rparr> 0 []
       \<lparr>user_login = Some ''a'', created_at = Some 0, pull_request = True,
        reviews = [], comments = 9, participants = [''a'', ''b'', ''c'']\<rparr>
     = Inr [(''a'', \<lparr>name = ''a'', email = [], email_type = ''N/A'',
                commits = 0, issues_created = 0, prs_created = 1, reviews_given = 0,
                comments_made = 3, total_activity = 0, quarterly_activity = [0, 0, 0, 1],
                activity_trend = None\<rparr>)]
   \<and> human_participants
       \<lparr>user_login = Some ''a'', created_at = Some 0, pull_request = True,
        reviews = [], comments = 9, participants = [''a'', ''b'', ''c'']\<rparr> = [''a'', ''b'', ''c'']
   \<and> comments_of [(''a'', \<lparr>name = ''a'', email = [], email_type = ''N/A'',
                commits = 0, issues_created = 0, prs_created = 1, reviews_given = 0,
                comments_made = 3, total_activity = 0, quarterly_activity = [0, 0, 0, 1],
                activity_trend = None\<rparr>)] ''b'' = 0"
  by code_simp

subsection \<open>Every entry has activity\<close>

lemma active_modify_mono:
  assumes "active L" "\<And>e. counters e \<le> counters (f e)"
  shows "active (modify k f L)"
  using assms by (fastforce simp: active_def modify_def intro: order_trans split: if_splits)

lemma active_ensure_modify:
  assumes "active L" "\<And>e. 1 \<le> counters (f e)"
  shows "active (modify k f (ensure k v L))"
  using assms by (fastforce simp: active_def modify_def ensure_def logins_def split: if_splits)

lemma counters_bump_quarter [simp]: "counters (bump_quarter q e) = counters e"
  by (simp add: counters_def bump_quarter_def)

lemma active_bump_quarter_opt: "active L \<Longrightarrow> active (bump_quarter_opt quarter k L)"
  by (cases quarter) (auto simp: bump_quarter_opt_def intro: active_modify_mono)

lemma active_commit_step:
  assumes "active L" "commit_step self now L c = Inr L'"
  shows "active L'"
  using assms
  by (auto simp: commit_step_def Let_def counters_def split: if_splits sum.splits
        intro!: active_bump_quarter_opt active_ensure_modify)

lemma active_review_step: "active L \<Longrightarrow> active (review_step author quarter L r)"
  by (auto simp: review_step_def Let_def counters_def
        intro!: active_bump_quarter_opt active_ensure_modify)

lemma active_foldl_review_step:
  "active L \<Longrightarrow> active (foldl (review_step author quarter) L rs)"
  by (induction rs arbitrary: L) (auto simp: active_review_step)

lemma active_foldl_comments:
  assumes "active L" "\<And>e. counters e \<le> counters (f e)"
  shows "active (foldl (\<lambda>L' p. if p \<in> logins L' then modify p f L' else L') L ps)"
  using assms(1)
  by (induction ps arbitrary: L) (auto intro: active_modify_mono assms(2))

lemma active_distribute_comments: "active L \<Longrightarrow> active (distribute_comments L i)"
  by (auto simp: distribute_comments_def counters_def intro!: active_foldl_comments)

lemma active_issue_step:
  assumes "active L" "issue_step self now L i = Inr L'"
  shows "active L'"
  using assms
  by (auto simp: issue_step_def Let_def counters_def split: if_splits sum.splits
        intro!: active_distribute_comments active_foldl_review_step
                active_bump_quarter_opt active_ensure_modify)

lemma active_for_each:
  assumes "\<And>s x s'. active s \<Longrightarrow> body s x = Inr s' \<Longrightarrow> active s'"
    and "active s" "for_each body s xs = Inr s'"
  shows "active s'"
  using assms(2,3)
proof (induction xs arbitrary: s)
  case Nil
  then show ?case by simp
next
  case (Cons x xs)
  from Cons.prems(2) obtain s1 where 1: "body s x = Inr s1" and 2: "for_each body s1 xs = Inr s'"
    by (auto split: sum.splits)
  show ?case using Cons.IH [OF assms(1) [OF Cons.prems(1) 1] 2] .
qed

lemma positive_totals_aggregate:
  assumes "aggregate self now cs xs = Inr L"
  shows "\<forall>e \<in> snd ` set L. 1 \<le> total_activity e"
proof -
  from assms obtain L1 L2 where 1: "for_each (commit_step self now) [] cs = Inr L1"
    and 2: "for_each (issue_step self now) L1 xs = Inr L2"
    and L: "L = map (\<lambda>(k, v). (k, finalize v)) L2"
    by (auto simp: aggregate_def split: sum.splits)
  have "active []" by (simp add: active_def)
  then have "active L1" using 1 active_commit_step active_for_each by blast
  then have "active L2" using 2 active_issue_step active_for_each by blast
  then show ?thesis
    unfolding L by (auto simp: active_def total_activity_finalize)
qed


subsection \<open>Concentration risk\<close>

lemma sum_activity_insort_key:
  "sum_activity (insort_key f x xs) = total_activity (snd x) + sum_activity xs"
  by (induction xs) (auto simp: sum_activity_def)

lemma sum_activity_sort_by_activity: "sum_activity (sort_by_activity L) = sum_activity L"
  by (induction L) (auto simp: sort_by_activity_def sum_activity_insort_key, simp add: sum_activity_def)

lemma sort_by_activity_Nil_iff: "sort_by_activity L = [] \<longleftrightarrow> L = []"
  by (metis length_0_conv length_sort sort_by_activity_def)

lemma hd_sort_by_activity_max:
  assumes "x \<in> set (sort_by_activity L)"
  shows "total_activity (snd x) \<le> total_activity (snd (hd (sort_by_activity L)))"
proof -
  have srt: "sorted (map (\<lambda>x. - int (total_activity (snd x))) (sort_by_activity L))"
    unfolding sort_by_activity_def by (rule sorted_sort_key)
  from assms obtain y ys where S: "sort_by_activity L = y # ys"
    by (cases "sort_by_activity L") auto
  show ?thesis
    using srt assms unfolding S by auto
qed

lemma sum_activity_pos:
  assumes "L \<noteq> []" "\<forall>e \<in> snd ` set L. 1 \<le> total_activity e"
  shows "0 < sum_activity L"
  using assms by (cases L) (auto simp: sum_activity_def)

text \<open>
  Claim C1. When the analysis returns a non-empty contributor list, the total activities sum
  to a positive number, the first entry of the list has the largest total, and with
  \<open>top_pct\<close> the first entry's total divided by the sum of all totals, times 100, the
  concentration risk is \<open>(top_pct - 30) / 40\<close> clamped to the interval from 0 to 1: it is 0
  when \<open>top_pct\<close> is at most 30, 1 when \<open>top_pct\<close> is at least 70, and
  \<open>(top_pct - 30) / 40\<close> in between.
\<close>

theorem concentration_risk_formula:
  assumes "analyze_contributor_concentration self calc now_commits now_issues now cs xs = Inr rf"
    and "active_contributors rf \<noteq> []"
  shows "let totals = map (\<lambda>c. total_activity (details c)) (active_contributors rf);
             top_pct = (of_nat (hd totals) / of_nat (sum_list totals) * 100 :: rat);
             risk = contributor_concentration_risk rf
         in 0 < sum_list totals \<and> (\<forall>t \<in> set totals. t \<le> hd totals) \<and>
            risk = min 1 (max 0 ((top_pct - 30) / 40)) \<and>
            (top_pct \<le> 30 \<longrightarrow> risk = 0) \<and>
            (70 \<le> top_pct \<longrightarrow> risk = 1) \<and>
            (30 \<le> top_pct \<and> top_pct \<le> 70 \<longrightarrow> risk = (top_pct - 30) / 40)"
proof -
  define rc where "rc = filter_recent_commits self now_commits cs"
  define ri where "ri = filter_recent_issues self now_issues xs"
  from assms(1) obtain L where agg: "aggregate self now rc ri = Inr L"
    and rf: "rf = concentration_report L (length rc) (length ri) (calc ri rc)"
    by (auto simp: analyze_contributor_concentration_def Let_def rc_def ri_def split: sum.splits)
  define S where "S = sort_by_activity L"
  have ne: "S \<noteq> []"
    using assms(2) unfolding rf S_def concentration_report_def Let_def
    by (auto split: if_splits)
  then have Lne: "L \<noteq> []" by (simp add: S_def sort_by_activity_Nil_iff)
  have ac: "map (\<lambda>c. total_activity (details c)) (active_contributors rf)
      = map (\<lambda>x. total_activity (snd x)) S"
    using ne unfolding rf S_def concentration_report_def Let_def
    by (simp add: o_def split_def)
  have hd: "hd (map (\<lambda>x. total_activity (snd x)) S) = total_activity (snd (hd S))"
    using ne by (simp add: hd_map)
  have sum: "sum_list (map (\<lambda>x. total_activity (snd x)) S) = sum_activity L"
    using sum_activity_sort_by_activity [of L] by (simp add: S_def sum_activity_def)
  have pos: "0 < sum_activity L"
    using sum_activity_pos [OF Lne positive_totals_aggregate [OF agg]] .
  have top: "\<forall>t \<in> set (map (\<lambda>x. total_activity (snd x)) S). t \<le> total_activity (snd (hd S))"
    using hd_sort_by_activity_max [of _ L] by (auto simp: S_def)
  have risk: "contributor_concentration_risk rf =
      min 1 (max 0 ((of_nat (total_activity (snd (hd S))) / of_nat (sum_activity L) * 100 - 30) / 40))"
    using ne pos unfolding rf S_def concentration_report_def Let_def
    by (simp add: percent_def sum_activity_sort_by_activity)
  show ?thesis
    unfolding Let_def ac hd sum risk using pos top by auto
qed

theorem concentration_risk_formula_witness:
  "analyze_contributor_concentration \<lparr>analysis_window_days = 365, custom_domains = []\<rparr>
       (\<lambda>_ _. \<lparr>avg_pr_close_time_days = None\<rparr>) 0 0 0
       [\<lparr>author_login = Some ''alice'', commit_author_name = Some ''Alice'',
         commit_author_email = Some ''alice@gmail.com'', commit_author_date = Some 0\<rparr>]
       [\<lparr>user_login = Some ''alice'', created_at = Some 0, pull_request = True,
         reviews = [\<lparr>review_user_login = Some ''bob''\<rparr>], comments = 0, participants = []\<rparr>]
     = Inr (concentration_report
         [(''alice'', \<lparr>name = ''Alice'', email = ''alice@gmail.com'', email_type = ''personal'',
                commits = 1, issues_created = 0, prs_created = 1, reviews_given = 0,
                comments_made = 0, total_activity = 2, quarterly_activity = [0, 0, 0, 2],
                activity_trend = Some ''insufficient_data''\<rparr>),
            (''bob'', \<lparr>name = ''bob'', email = [], email_type = ''N/A'',
                commits = 0, issues_created = 0, prs_created = 0, reviews_given = 1,
                comments_made = 0, total_activity = 1, quarterly_activity = [0, 0, 0, 1],
                activity_trend = Some ''insufficient_data''\<rparr>)] 1 1 \<lparr>avg_pr_close_time_days = None\<rparr>)
   \<and> contributor_concentration_risk (concentration_report
         [(''alice'', \<lparr>name = ''Alice'', email = ''alice@gmail.com'', email_type = ''personal'',
                commits = 1, issues_created = 0, prs_created = 1, reviews_given = 0,
                comments_made = 0, total_activity = 2, quarterly_activity = [0, 0, 0, 2],
                activity_trend = Some ''insufficient_data''\<rparr>),
            (''bob'', \<lparr>name = ''bob'', email = [], email_type = ''N/A'',
                commits = 0, issues_created = 0, prs_created = 0, reviews_given = 1,
                comments_made = 0, total_activity = 1, quarterly_activity = [0, 0, 0, 1],
                activity_trend = Some ''insufficient_data''\<rparr>)] 1 1 \<lparr>avg_pr_close_time_days = None\<rparr>) = 11 / 12"
proof -
  let ?rf = "concentration_report
         [(''alice'', \<lparr>name = ''Alice'', email = ''alice@gmail.com'', email_type = ''personal'',
                commits = 1, issues_created = 0, prs_created = 1, reviews_given = 0,
                comments_made = 0, total_activity = 2, quarterly_activity = [0, 0, 0, 2],
                activity_trend = Some ''insufficient_data''\<rparr>),
            (''bob'', \<lparr>name = ''bob'', email = [], email_type = ''N/A'',
                commits = 0, issues_created = 0, prs_created = 0, reviews_given = 1,
                comments_made = 0, total_activity = 1, quarterly_activity = [0, 0, 0, 1],
                activity_trend = Some ''insufficient_data''\<rparr>)] 1 1 \<lparr>avg_pr_close_time_days = None\<rparr>"
  have agg: "aggregate \<lparr>analysis_window_days = 365, custom_domains = []\<rparr> 0
       [\<lparr>author_login = Some ''alice'', commit_author_name = Some ''Alice'',
         commit_author_email = Some ''alice@gmail.com'', commit_author_date = Some 0\<rparr>]
       [\<lparr>user_login = Some ''alice'', created_at = Some 0, pull_request = True,
         reviews = [\<lparr>review_user_login = Some ''bob''\<rparr>], comments = 0, participants = []\<rparr>]
     = Inr [(''alice'', \<lparr>name = ''Alice'', email = ''alice@gmail.com'', email_type = ''personal'',
                commits = 1, issues_created = 0, prs_created = 1, reviews_given = 0,
                comments_made = 0, total_activity = 2, quarterly_activity = [0, 0, 0, 2],
                activity_trend = Some ''insufficient_data''\<rparr>),
            (''bob'', \<lparr>name = ''bob'', email = [], email_type = ''N/A'',
                commits = 0, issues_created = 0, prs_created = 0, reviews_given = 1,
                comments_made = 0, total_activity = 1, quarterly_activity = [0, 0, 0, 1],
                activity_trend = Some ''insufficient_data''\<rparr>)]"
    by code_simp
  have h: "analyze_contributor_concentration \<lparr>analysis_window_days = 365, custom_domains = []\<rparr>
       (\<lambda>_ _. \<lparr>avg_pr_close_time_days = None\<rparr>) 0 0 0
       [\<lparr>author_login = Some ''alice'', commit_author_name = Some ''Alice'',
         commit_author_email = Some ''alice@gmail.com'', commit_author_date = Some 0\<rparr>]
       [\<lparr>user_login = Some ''alice'', created_at = Some 0, pull_request = True,
         reviews = [\<lparr>review_user_login = Some ''bob''\<rparr>], comments = 0, participants = []\<rparr>] = Inr ?rf"
    using agg
    by (simp add: analyze_contributor_concentration_def filter_recent_commits_def
          filter_recent_issues_def day_def)
  have tot: "map (\<lambda>c. total_activity (details c)) (active_contributors ?rf) = [2, 1]"
    by (simp add: concentration_report_def sort_by_activity_def Let_def)
  then have ne: "active_contributors ?rf \<noteq> []" by auto
  from concentration_risk_formula [OF h ne]
  have "contributor_concentration_risk ?rf =
      min 1 (max 0 (((of_nat (hd [2, 1 :: nat]) / of_nat (sum_list [2, 1 :: nat]) * 100 :: rat) - 30) / 40))"
    unfolding Let_def tot by blast
  then have "contributor_concentration_risk ?rf = 11 / 12" by simp
  then show ?thesis using h by blast
qed

end
